theory Spec2Isabelle
  imports
    Main
    "HOL-Library.Word"
    "HOL-Library.AList"
    "HOL-Library.Char_ord"
    "HOL-Library.List_Lexorder"
begin

unbundle bit_operations_syntax

section \<open>The OAuth web application flow (package webapp, webapp\_flow.go)\<close>

subsection \<open>Errors\<close>

text \<open>
  Go errors are values. The flow creates one error itself, \<^verbatim>\<open>errors.New("state mismatch")\<close>;
  every other error is handed through from a collaborator. The constructors record where
  an error was made, the string is its message.
\<close>

datatype error =
    StateMismatch            \<comment> \<open>\<^verbatim>\<open>errors.New("state mismatch")\<close>\<close>
  | BindError string         \<comment> \<open>from \<^verbatim>\<open>bindLocalServer\<close>\<close>
  | RandError string         \<comment> \<open>from \<^verbatim>\<open>rand.Read\<close>\<close>
  | UrlError string          \<comment> \<open>from \<^verbatim>\<open>url.Parse\<close>\<close>
  | ServerError string       \<comment> \<open>from the local server: \<^verbatim>\<open>Serve\<close>, \<^verbatim>\<open>WaitForCode\<close>\<close>
  | PostError string         \<comment> \<open>from \<^verbatim>\<open>api.PostForm\<close>\<close>
  | TokenError string        \<comment> \<open>from \<^verbatim>\<open>FormResponse.AccessToken\<close>\<close>

subsection \<open>Form values (\<^verbatim>\<open>url.Values\<close>)\<close>

text \<open>
  \<^verbatim>\<open>url.Values\<close> is \<^verbatim>\<open>map[string][]string\<close>. It is an association list here, read
  through \<^const>\<open>map_of\<close>; an assignment \<^verbatim>\<open>v[key] = vs\<close> replaces the entry of the key or
  adds one. \<^verbatim>\<open>Set(key, value)\<close> is \<^verbatim>\<open>v[key] = []string{value}\<close>.
\<close>

type_synonym Values = "(string \<times> string list) list"

definition Values_assign :: "string \<Rightarrow> string list \<Rightarrow> Values \<Rightarrow> Values" where
  "Values_assign key vs v = AList.update key vs v"

definition Values_Set :: "string \<Rightarrow> string \<Rightarrow> Values \<Rightarrow> Values" where
  "Values_Set key val v = Values_assign key [val] v"

section \<open>The parts of Go's standard library that the flow calls\<close>

text \<open>
  Go strings are byte sequences, and so are the strings here: a \<^typ>\<open>char\<close> is a byte.
  The functions of this section follow the Go sources of packages \<^verbatim>\<open>strings\<close>,
  \<^verbatim>\<open>strconv\<close>, \<^verbatim>\<open>encoding/hex\<close> and \<^verbatim>\<open>net/url\<close> (Go 1.21), function by function.
\<close>

subsection \<open>Package strings\<close>

definition HasPrefix :: "string \<Rightarrow> string \<Rightarrow> bool" where
  "HasPrefix s p = (take (length p) s = p)"

definition HasSuffix :: "string \<Rightarrow> string \<Rightarrow> bool" where
  "HasSuffix s p = (length p \<le> length s \<and> drop (length s - length p) s = p)"

text \<open>\<^verbatim>\<open>strings.Index\<close> and \<^verbatim>\<open>strings.LastIndex\<close>; \<open>None\<close> is Go's \<open>-1\<close>.\<close>

fun Index :: "string \<Rightarrow> string \<Rightarrow> nat option" where
  "Index [] sub = (if sub = [] then Some 0 else None)"
| "Index (c # s) sub =
     (if HasPrefix (c # s) sub then Some 0 else map_option Suc (Index s sub))"

fun LastIndex :: "string \<Rightarrow> string \<Rightarrow> nat option" where
  "LastIndex [] sub = (if sub = [] then Some 0 else None)"
| "LastIndex (c # s) sub =
     (case LastIndex s sub of
        Some i \<Rightarrow> Some (Suc i)
      | None \<Rightarrow> if HasPrefix (c # s) sub then Some 0 else None)"

definition Contains :: "string \<Rightarrow> string \<Rightarrow> bool" where
  "Contains s sub = (Index s sub \<noteq> None)"

text \<open>\<^verbatim>\<open>strings.Cut(s, sep)\<close> returns \<^verbatim>\<open>(before, after, found)\<close>.\<close>

definition Cut :: "string \<Rightarrow> string \<Rightarrow> string \<times> string \<times> bool" where
  "Cut s sep =
     (case Index s sep of
        Some i \<Rightarrow> (take i s, drop (i + length sep) s, True)
      | None \<Rightarrow> (s, '''', False))"

text \<open>\<^verbatim>\<open>strings.Count(s, sep)\<close> for a separator of one byte.\<close>

definition CountByte :: "string \<Rightarrow> char \<Rightarrow> nat" where
  "CountByte s c = length (filter (\<lambda>x. x = c) s)"

definition lower :: "char \<Rightarrow> char" where
  "lower c = (if CHR ''A'' \<le> c \<and> c \<le> CHR ''Z'' then char_of (of_char c + (32::nat)) else c)"

text \<open>\<^verbatim>\<open>strings.ToLower\<close> on the ASCII letters; a scheme has no other letters.\<close>

definition ToLower :: "string \<Rightarrow> string" where
  "ToLower s = map lower s"

text \<open>\<^verbatim>\<open>strings.Join(elems, sep)\<close>.\<close>

fun Join :: "string list \<Rightarrow> string \<Rightarrow> string" where
  "Join [] sep = ''''"
| "Join [x] sep = x"
| "Join (x # y # xs) sep = x @ sep @ Join (y # xs) sep"

subsection \<open>Formatting an integer with \<^verbatim>\<open>%d\<close>\<close>

definition digit_table :: string where
  "digit_table = ''0123456789''"

fun digits :: "nat \<Rightarrow> string" where
  "digits n =
     (if n < 10 then [digit_table ! n]
      else digits (n div 10) @ [digit_table ! (n mod 10)])"

declare digits.simps [simp del]

definition Itoa :: "int \<Rightarrow> string" where
  "Itoa i = (if i < 0 then CHR ''-'' # digits (nat (- i)) else digits (nat i))"

subsection \<open>Packages encoding/hex and crypto/rand\<close>

text \<open>
  \<^verbatim>\<open>hex.EncodeToString\<close>: two lower-case hexadecimal digits for each byte, the high
  nibble first.
\<close>

definition hextable :: string where
  "hextable = ''0123456789abcdef''"

definition hex_EncodeToString :: "8 word list \<Rightarrow> string" where
  "hex_EncodeToString src =
     concat (map (\<lambda>v. [hextable ! unat (drop_bit 4 v), hextable ! unat (v AND 0x0f)]) src)"

text \<open>
  The random source of \<^verbatim>\<open>crypto/rand\<close>: either it fails, or it yields a stream of bytes.
  \<^verbatim>\<open>rand.Read(b)\<close> fills all of \<open>b\<close> when it returns no error.
\<close>

type_synonym rand_Reader = "error + (nat \<Rightarrow> 8 word)"

definition rand_Read :: "rand_Reader \<Rightarrow> nat \<Rightarrow> error + 8 word list" where
  "rand_Read r n = (case r of Inl e \<Rightarrow> Inl e | Inr f \<Rightarrow> Inr (map f [0..<n]))"

subsection \<open>Package net/url: escaping\<close>

datatype encoding =
    encodePath
  | encodePathSegment
  | encodeHost
  | encodeZone
  | encodeUserPassword
  | encodeQueryComponent
  | encodeFragment

definition upperhex :: string where
  "upperhex = ''0123456789ABCDEF''"

definition ishex :: "char \<Rightarrow> bool" where
  "ishex c =
     ((CHR ''0'' \<le> c \<and> c \<le> CHR ''9'') \<or> (CHR ''a'' \<le> c \<and> c \<le> CHR ''f'')
      \<or> (CHR ''A'' \<le> c \<and> c \<le> CHR ''F''))"

definition unhex :: "char \<Rightarrow> nat" where
  "unhex c =
     (if CHR ''0'' \<le> c \<and> c \<le> CHR ''9'' then of_char c - of_char (CHR ''0'')
      else if CHR ''a'' \<le> c \<and> c \<le> CHR ''f'' then of_char c - of_char (CHR ''a'') + 10
      else if CHR ''A'' \<le> c \<and> c \<le> CHR ''F'' then of_char c - of_char (CHR ''A'') + 10
      else 0)"

definition isAlnum :: "char \<Rightarrow> bool" where
  "isAlnum c =
     ((CHR ''a'' \<le> c \<and> c \<le> CHR ''z'') \<or> (CHR ''A'' \<le> c \<and> c \<le> CHR ''Z'')
      \<or> (CHR ''0'' \<le> c \<and> c \<le> CHR ''9''))"

text \<open>
  \<^verbatim>\<open>shouldEscape(c, mode)\<close>: whether the byte has to be escaped in the given part of a URL.
  The case order is the source's.
\<close>

definition shouldEscape :: "char \<Rightarrow> encoding \<Rightarrow> bool" where
  "shouldEscape c mode =
     (if isAlnum c then False
      else if (mode = encodeHost \<or> mode = encodeZone) \<and> (c \<in> set ''!$&()*+,;=:[]<>'' \<or> c = CHR 0x27 \<or> c = CHR 0x22) then False
      else if c \<in> set ''-_.~'' then False
      else if c \<in> set ''$&+,/:;=?@'' then
        (case mode of
           encodePath \<Rightarrow> c = CHR ''?''
         | encodePathSegment \<Rightarrow> c = CHR ''/'' \<or> c = CHR '';'' \<or> c = CHR '','' \<or> c = CHR ''?''
         | encodeUserPassword \<Rightarrow> c = CHR ''@'' \<or> c = CHR ''/'' \<or> c = CHR ''?'' \<or> c = CHR '':''
         | encodeQueryComponent \<Rightarrow> True
         | encodeFragment \<Rightarrow> False
         | _ \<Rightarrow> True)
      else if mode = encodeFragment \<and> c \<in> set ''!()*'' then False
      else True)"

text \<open>\<^verbatim>\<open>escape(s, mode)\<close>: a space becomes \<open>+\<close> in a query component, a byte that has to
  be escaped becomes \<open>%XX\<close> with upper-case digits, every other byte is copied.\<close>

definition escape_byte :: "encoding \<Rightarrow> char \<Rightarrow> string" where
  "escape_byte mode c =
     (if c = CHR '' '' \<and> mode = encodeQueryComponent then ''+''
      else if shouldEscape c mode then
        [CHR ''%'', upperhex ! (of_char c div 16), upperhex ! (of_char c mod 16)]
      else [c])"

definition escape :: "string \<Rightarrow> encoding \<Rightarrow> string" where
  "escape s mode = concat (map (escape_byte mode) s)"

text \<open>
  \<^verbatim>\<open>unescape(s, mode)\<close>. The source checks the whole string first and decodes it in a
  second loop; every check reads only the bytes at its position, so one pass that checks
  and decodes finds the same first error and the same result.
\<close>

fun unescape :: "string \<Rightarrow> encoding \<Rightarrow> error + string" where
  "unescape [] mode = Inr ''''"
| "unescape (c # s) mode =
     (if c = CHR ''%'' then
        (case s of
           a # b # rest \<Rightarrow>
             if \<not> ishex a \<or> \<not> ishex b then Inl (UrlError (''invalid URL escape '' @ take 3 (c # s)))
             else if mode = encodeHost \<and> unhex a < 8 \<and> [c, a, b] \<noteq> ''%25''
               then Inl (UrlError (''invalid URL escape '' @ [c, a, b]))
             else if mode = encodeZone \<and> [c, a, b] \<noteq> ''%25''
                     \<and> char_of (unhex a * 16 + unhex b) \<noteq> CHR '' ''
                     \<and> shouldEscape (char_of (unhex a * 16 + unhex b)) encodeHost
               then Inl (UrlError (''invalid URL escape '' @ [c, a, b]))
             else (case unescape rest mode of
                     Inl e \<Rightarrow> Inl e
                   | Inr t \<Rightarrow> Inr (char_of (unhex a * 16 + unhex b) # t))
         | _ \<Rightarrow> Inl (UrlError (''invalid URL escape '' @ take 3 (c # s))))
      else if c = CHR ''+'' then
        (case unescape s mode of
           Inl e \<Rightarrow> Inl e
         | Inr t \<Rightarrow> Inr ((if mode = encodeQueryComponent then CHR '' '' else CHR ''+'') # t))
      else if (mode = encodeHost \<or> mode = encodeZone) \<and> of_char c < (128::nat)
              \<and> shouldEscape c encodeHost
        then Inl (UrlError (''invalid character in host name '' @ [c]))
      else (case unescape s mode of
              Inl e \<Rightarrow> Inl e
            | Inr t \<Rightarrow> Inr (c # t)))"

definition QueryEscape :: "string \<Rightarrow> string" where
  "QueryEscape s = escape s encodeQueryComponent"

definition QueryUnescape :: "string \<Rightarrow> error + string" where
  "QueryUnescape s = unescape s encodeQueryComponent"

subsection \<open>Package net/url: the type URL and its parser\<close>

record Userinfo =
  username :: string
  password :: string
  passwordSet :: bool

record URL =
  Scheme :: string
  Opaque :: string
  User :: "Userinfo option"
  Host :: string
  Path :: string
  RawPath :: string
  OmitHost :: bool
  ForceQuery :: bool
  RawQuery :: string
  Fragment :: string
  RawFragment :: string

definition URL_new :: URL where
  "URL_new = \<lparr>Scheme = '''', Opaque = '''', User = None, Host = '''', Path = '''', RawPath = '''',
     OmitHost = False, ForceQuery = False, RawQuery = '''', Fragment = '''', RawFragment = ''''\<rparr>"

definition stringContainsCTLByte :: "string \<Rightarrow> bool" where
  "stringContainsCTLByte s = (\<exists>b \<in> set s. b < CHR '' '' \<or> b = CHR 0x7F)"

text \<open>
  \<^verbatim>\<open>getScheme(rawURL)\<close> returns \<^verbatim>\<open>(scheme, path, err)\<close>. The loop index is the length of
  the bytes already read, \<open>pre\<close>.
\<close>

fun getScheme_loop :: "string \<Rightarrow> string \<Rightarrow> string \<Rightarrow> error + string \<times> string" where
  "getScheme_loop rawURL pre [] = Inr ('''', rawURL)"
| "getScheme_loop rawURL pre (c # s) =
     (if (CHR ''a'' \<le> c \<and> c \<le> CHR ''z'') \<or> (CHR ''A'' \<le> c \<and> c \<le> CHR ''Z'') then
        getScheme_loop rawURL (pre @ [c]) s
      else if (CHR ''0'' \<le> c \<and> c \<le> CHR ''9'') \<or> c = CHR ''+'' \<or> c = CHR ''-'' \<or> c = CHR ''.'' then
        (if pre = [] then Inr ('''', rawURL) else getScheme_loop rawURL (pre @ [c]) s)
      else if c = CHR '':'' then
        (if pre = [] then Inl (UrlError ''missing protocol scheme'') else Inr (pre, s))
      else Inr ('''', rawURL))"

definition getScheme :: "string \<Rightarrow> error + string \<times> string" where
  "getScheme rawURL = getScheme_loop rawURL [] rawURL"

definition validOptionalPort :: "string \<Rightarrow> bool" where
  "validOptionalPort port =
     (case port of
        [] \<Rightarrow> True
      | c # ds \<Rightarrow> c = CHR '':'' \<and> (\<forall>b \<in> set ds. \<not> (b < CHR ''0'' \<or> b > CHR ''9'')))"

definition validUserinfo :: "string \<Rightarrow> bool" where
  "validUserinfo s =
     (\<forall>r \<in> set s. isAlnum r \<or> r \<in> set ''-._:~!$&()*+,;=%@'' \<or> r = CHR 0x27)"

text \<open>\<^verbatim>\<open>parseHost\<close>: the host of an authority, with the checks for a port and for an
  IP literal in brackets.\<close>

definition parseHost :: "string \<Rightarrow> error + string" where
  "parseHost host =
     (if HasPrefix host ''['' then
        (case LastIndex host '']'' of
           None \<Rightarrow> Inl (UrlError ''missing ] in host'')
         | Some i \<Rightarrow>
             if \<not> validOptionalPort (drop (i + 1) host)
               then Inl (UrlError (''invalid port after host '' @ drop (i + 1) host))
             else
               (case Index (take i host) ''%25'' of
                  Some zone \<Rightarrow>
                    (case unescape (take zone host) encodeHost of
                       Inl e \<Rightarrow> Inl e
                     | Inr host1 \<Rightarrow>
                         (case unescape (drop zone (take i host)) encodeZone of
                            Inl e \<Rightarrow> Inl e
                          | Inr host2 \<Rightarrow>
                              (case unescape (drop i host) encodeHost of
                                 Inl e \<Rightarrow> Inl e
                               | Inr host3 \<Rightarrow> Inr (host1 @ host2 @ host3))))
                | None \<Rightarrow> unescape host encodeHost))
      else
        (case LastIndex host '':'' of
           Some i \<Rightarrow>
             if \<not> validOptionalPort (drop i host)
               then Inl (UrlError (''invalid port after host '' @ drop i host))
             else unescape host encodeHost
         | None \<Rightarrow> unescape host encodeHost))"

definition parseUserinfo :: "string \<Rightarrow> error + Userinfo" where
  "parseUserinfo userinfo =
     (if \<not> validUserinfo userinfo then Inl (UrlError ''net/url: invalid userinfo'')
      else if \<not> Contains userinfo '':'' then
        (case unescape userinfo encodeUserPassword of
           Inl e \<Rightarrow> Inl e
         | Inr u \<Rightarrow> Inr \<lparr>username = u, password = '''', passwordSet = False\<rparr>)
      else
        (let (uname, pw, _) = Cut userinfo '':'' in
         case unescape uname encodeUserPassword of
           Inl e \<Rightarrow> Inl e
         | Inr u \<Rightarrow>
             (case unescape pw encodeUserPassword of
                Inl e \<Rightarrow> Inl e
              | Inr p \<Rightarrow> Inr \<lparr>username = u, password = p, passwordSet = True\<rparr>)))"

text \<open>\<^verbatim>\<open>parseAuthority\<close> returns \<^verbatim>\<open>(user, host, err)\<close>; the host is parsed first.\<close>

definition parseAuthority :: "string \<Rightarrow> error + Userinfo option \<times> string" where
  "parseAuthority authority =
     (let i = LastIndex authority ''@'' in
      case parseHost (case i of None \<Rightarrow> authority | Some i \<Rightarrow> drop (i + 1) authority) of
        Inl e \<Rightarrow> Inl e
      | Inr host \<Rightarrow>
          (case i of
             None \<Rightarrow> Inr (None, host)
           | Some i \<Rightarrow>
               (case parseUserinfo (take i authority) of
                  Inl e \<Rightarrow> Inl e
                | Inr user \<Rightarrow> Inr (Some user, host))))"

definition setPath :: "URL \<Rightarrow> string \<Rightarrow> error + URL" where
  "setPath u p =
     (case unescape p encodePath of
        Inl e \<Rightarrow> Inl e
      | Inr path \<Rightarrow>
          Inr (u\<lparr>Path := path, RawPath := (if p = escape path encodePath then '''' else p)\<rparr>))"

definition setFragment :: "URL \<Rightarrow> string \<Rightarrow> error + URL" where
  "setFragment u f =
     (case unescape f encodeFragment of
        Inl e \<Rightarrow> Inl e
      | Inr frag \<Rightarrow>
          Inr (u\<lparr>Fragment := frag,
                 RawFragment := (if f = escape frag encodeFragment then '''' else f)\<rparr>))"

text \<open>
  \<^verbatim>\<open>parse(rawURL, viaRequest)\<close> with \<^verbatim>\<open>viaRequest = false\<close>, as \<^verbatim>\<open>url.Parse\<close> calls it.
\<close>

definition parse :: "string \<Rightarrow> error + URL" where
  "parse rawURL =
     (if stringContainsCTLByte rawURL
        then Inl (UrlError ''net/url: invalid control character in URL'')
      else if rawURL = ''*'' then Inr (URL_new\<lparr>Path := ''*''\<rparr>)
      else
        (case getScheme rawURL of
           Inl e \<Rightarrow> Inl e
         | Inr (scheme, rest) \<Rightarrow>
             (let url = URL_new\<lparr>Scheme := ToLower scheme\<rparr>;
                  (url, rest) =
                    (if HasSuffix rest ''?'' \<and> CountByte rest (CHR ''?'') = 1
                       then (url\<lparr>ForceQuery := True\<rparr>, take (length rest - 1) rest)
                     else (let (rest, q, _) = Cut rest ''?'' in (url\<lparr>RawQuery := q\<rparr>, rest)))
              in
                if \<not> HasPrefix rest ''/'' \<and> Scheme url \<noteq> '''' then Inr (url\<lparr>Opaque := rest\<rparr>)
                else if \<not> HasPrefix rest ''/'' \<and> Contains (fst (Cut rest ''/'')) '':''
                  then Inl (UrlError ''first path segment in URL cannot contain colon'')
                else if (Scheme url \<noteq> '''' \<or> \<not> HasPrefix rest ''///'') \<and> HasPrefix rest ''//'' then
                  (let authority = drop 2 rest;
                       (authority, rest) =
                         (case Index authority ''/'' of
                            Some i \<Rightarrow> (take i authority, drop i authority)
                          | None \<Rightarrow> (authority, ''''))
                   in case parseAuthority authority of
                        Inl e \<Rightarrow> Inl e
                      | Inr (user, host) \<Rightarrow> setPath (url\<lparr>User := user, Host := host\<rparr>) rest)
                else if Scheme url \<noteq> '''' \<and> HasPrefix rest ''/''
                  then setPath (url\<lparr>OmitHost := True\<rparr>) rest
                else setPath url rest)))"

definition url_Parse :: "string \<Rightarrow> error + URL" where
  "url_Parse rawURL =
     (let (u, frag, _) = Cut rawURL ''#'' in
      case parse u of
        Inl e \<Rightarrow> Inl e
      | Inr url \<Rightarrow> if frag = '''' then Inr url else setFragment url frag)"

subsection \<open>Package net/url: methods of URL\<close>

definition splitHostPort :: "string \<Rightarrow> string \<times> string" where
  "splitHostPort hostPort =
     (let (host, port) =
            (case LastIndex hostPort '':'' of
               Some colon \<Rightarrow>
                 if validOptionalPort (drop colon hostPort)
                   then (take colon hostPort, drop (colon + 1) hostPort)
                 else (hostPort, '''')
             | None \<Rightarrow> (hostPort, ''''));
          host = (if HasPrefix host ''['' \<and> HasSuffix host '']''
                    then take (length host - 2) (drop 1 host) else host)
      in (host, port))"

definition Hostname :: "URL \<Rightarrow> string" where
  "Hostname u = fst (splitHostPort (Host u))"

definition validEncoded :: "string \<Rightarrow> encoding \<Rightarrow> bool" where
  "validEncoded s mode =
     (\<forall>c \<in> set s.
        if c \<in> set ''!$&()*+,;=:@'' \<or> c = CHR 0x27 then True
        else if c = CHR ''['' \<or> c = CHR '']'' then True
        else if c = CHR ''%'' then True
        else \<not> shouldEscape c mode)"

definition EscapedPath :: "URL \<Rightarrow> string" where
  "EscapedPath u =
     (if RawPath u \<noteq> '''' \<and> validEncoded (RawPath u) encodePath
         \<and> unescape (RawPath u) encodePath = Inr (Path u)
        then RawPath u
      else if Path u = ''*'' then ''*''
      else escape (Path u) encodePath)"

definition EscapedFragment :: "URL \<Rightarrow> string" where
  "EscapedFragment u =
     (if RawFragment u \<noteq> '''' \<and> validEncoded (RawFragment u) encodeFragment
         \<and> unescape (RawFragment u) encodeFragment = Inr (Fragment u)
        then RawFragment u
      else escape (Fragment u) encodeFragment)"

definition Userinfo_String :: "Userinfo \<Rightarrow> string" where
  "Userinfo_String u =
     escape (username u) encodeUserPassword
       @ (if passwordSet u then '':'' @ escape (password u) encodeUserPassword else '''')"

text \<open>\<^verbatim>\<open>URL.String()\<close>; the buffer of the source is the string built so far.\<close>

definition URL_String :: "URL \<Rightarrow> string" where
  "URL_String u =
     (let buf = (if Scheme u \<noteq> '''' then Scheme u @ '':'' else '''');
          buf =
            (if Opaque u \<noteq> '''' then buf @ Opaque u
             else
               (let buf =
                      (if Scheme u \<noteq> '''' \<or> Host u \<noteq> '''' \<or> User u \<noteq> None then
                         (if OmitHost u \<and> Host u = '''' \<and> User u = None then buf
                          else
                            buf
                            @ (if Host u \<noteq> '''' \<or> Path u \<noteq> '''' \<or> User u \<noteq> None
                                 then ''//'' else '''')
                            @ (case User u of
                                 Some ui \<Rightarrow> Userinfo_String ui @ ''@''
                               | None \<Rightarrow> '''')
                            @ (if Host u \<noteq> '''' then escape (Host u) encodeHost else ''''))
                       else buf);
                    path = EscapedPath u;
                    buf = (if path \<noteq> '''' \<and> hd path \<noteq> CHR ''/'' \<and> Host u \<noteq> ''''
                             then buf @ ''/'' else buf);
                    buf = (if buf = '''' \<and> Contains (fst (Cut path ''/'')) '':''
                             then buf @ ''./'' else buf)
                in buf @ path));
          buf = (if ForceQuery u \<or> RawQuery u \<noteq> '''' then buf @ ''?'' @ RawQuery u else buf);
          buf = (if Fragment u \<noteq> '''' then buf @ ''#'' @ EscapedFragment u else buf)
      in buf)"

subsection \<open>Package net/url: \<^verbatim>\<open>Values.Encode\<close> and \<^verbatim>\<open>ParseQuery\<close>\<close>

text \<open>
  \<^verbatim>\<open>Values.Encode\<close> writes \<open>key=value\<close> pairs separated by \<open>&\<close>, the keys sorted, keys and
  values escaped as query components. The builder of the source is the string \<open>buf\<close>.
\<close>

fun Encode_values :: "string \<Rightarrow> string list \<Rightarrow> string \<Rightarrow> string" where
  "Encode_values keyEscaped [] buf = buf"
| "Encode_values keyEscaped (x # vs) buf =
     Encode_values keyEscaped vs
       ((if length buf > 0 then buf @ ''&'' else buf) @ keyEscaped @ ''='' @ QueryEscape x)"

fun Encode_keys :: "Values \<Rightarrow> string list \<Rightarrow> string \<Rightarrow> string" where
  "Encode_keys v [] buf = buf"
| "Encode_keys v (k # keys) buf =
     Encode_keys v keys
       (Encode_values (QueryEscape k) (case map_of v k of None \<Rightarrow> [] | Some vs \<Rightarrow> vs) buf)"

definition Values_Encode :: "Values \<Rightarrow> string" where
  "Values_Encode v =
     (if v = [] then '''' else Encode_keys v (sort (remdups (map fst v))) '''')"

text \<open>
  \<^verbatim>\<open>ParseQuery\<close> returns the values it could parse and the first error it met.
  \<^verbatim>\<open>m[key] = append(m[key], value)\<close> is \<open>Values_Add\<close>.
\<close>

definition Values_Add :: "string \<Rightarrow> string \<Rightarrow> Values \<Rightarrow> Values" where
  "Values_Add key val v =
     Values_assign key ((case map_of v key of None \<Rightarrow> [] | Some vs \<Rightarrow> vs) @ [val]) v"

definition first_error :: "error option \<Rightarrow> error \<Rightarrow> error option" where
  "first_error err err1 = (case err of None \<Rightarrow> Some err1 | Some e \<Rightarrow> Some e)"

fun parseQuery_pairs :: "string list \<Rightarrow> Values \<Rightarrow> error option \<Rightarrow> Values \<times> error option" where
  "parseQuery_pairs [] m err = (m, err)"
| "parseQuery_pairs (key # rest) m err =
     (if Contains key '';''
        then parseQuery_pairs rest m (Some (UrlError ''invalid semicolon separator in query''))
      else if key = '''' then parseQuery_pairs rest m err
      else
        (let (key, val, _) = Cut key ''=''
         in case QueryUnescape key of
              Inl err1 \<Rightarrow> parseQuery_pairs rest m (first_error err err1)
            | Inr key \<Rightarrow>
                (case QueryUnescape val of
                   Inl err1 \<Rightarrow> parseQuery_pairs rest m (first_error err err1)
                 | Inr val \<Rightarrow> parseQuery_pairs rest (Values_Add key val m) err)))"

text \<open>The pieces that the repeated \<^verbatim>\<open>strings.Cut(query, "&")\<close> of the loop yields.\<close>

fun split_amp :: "string \<Rightarrow> string \<Rightarrow> string list" where
  "split_amp cur [] = (if cur = [] then [] else [cur])"
| "split_amp cur (c # s) = (if c = CHR ''&'' then cur # split_amp [] s else split_amp (cur @ [c]) s)"

definition ParseQuery :: "string \<Rightarrow> Values \<times> error option" where
  "ParseQuery query = parseQuery_pairs (split_amp [] query) [] None"

definition Values_Get :: "Values \<Rightarrow> string \<Rightarrow> string" where
  "Values_Get v key = (case map_of v key of Some (x # _) \<Rightarrow> x | _ \<Rightarrow> '''')"

definition Values_Has :: "Values \<Rightarrow> string \<Rightarrow> bool" where
  "Values_Has v key = (map_of v key \<noteq> None)"

definition URL_Query :: "URL \<Rightarrow> Values" where
  "URL_Query u = fst (ParseQuery (RawQuery u))"

section \<open>The flow and its collaborators\<close>

subsection \<open>The local callback server\<close>

text \<open>
  Modelled from the spec: the type \<^verbatim>\<open>CodeResponse\<close> is declared with the local server,
  which is not among the sources; the flow reads its fields \<^verbatim>\<open>Code\<close> and \<^verbatim>\<open>State\<close>. It is
  the spec's CallbackResult, "code: string, state: string, error: optional string": "if
  error is present, the completion signal carries a CallbackResult with only error set;
  otherwise it carries code and state".
\<close>

record CodeResponse =
  Code :: string
  State :: string
  Error :: "string option"

text \<open>
  Modelled from the spec: the type \<^verbatim>\<open>localServer\<close> with \<^verbatim>\<open>bindLocalServer\<close>,
  \<^verbatim>\<open>Port\<close>, \<^verbatim>\<open>Serve\<close> and \<^verbatim>\<open>WaitForCode\<close> is not among the sources; the flow only
  assigns its fields \<^verbatim>\<open>CallbackPath\<close> and \<^verbatim>\<open>WriteSuccessHTML\<close> and calls its methods.
  The spec's LocalServer is
  "port: integer (ephemeral, OS-assigned), callbackPath: string, responseRenderer:
  function(outputSink) (injected by caller), completionSignal: single-use synchronization
  primitive carrying CallbackResult or error".
  A renderer, Go's \<^verbatim>\<open>func(io.Writer)\<close>, is the page that it writes.
  The completion signal is the field \<open>resultChan\<close>: \<open>Some\<close> of what the signal will carry
  (a callback result, or a listener error), or \<open>None\<close> when nothing is ever published (or
  the signal was consumed before), in which case the waiter blocks forever.
\<close>

type_synonym renderer = string

record localServer =
  listenerPort :: int
  CallbackPath :: string
  WriteSuccessHTML :: "renderer option"
  resultChan :: "(error + CodeResponse) option"

text \<open>Modelled from the spec: \<^verbatim>\<open>Port\<close> "returns the bound port number".\<close>

definition Port :: "localServer \<Rightarrow> int" where
  "Port s = listenerPort s"

text \<open>
  Modelled from the spec: \<^verbatim>\<open>WaitForCode\<close> returns \<^verbatim>\<open>(CodeResponse, error)\<close>. It blocks until
  the single-use completion signal fires and hands over what the signal carries: the
  callback result as the response, also when its error is set, or a listener error,
  "surfaced to the waiter as a propagated error, not a CallbackResult". The result \<open>None\<close>
  is "never returns".
\<close>

definition WaitForCode :: "localServer \<Rightarrow> ((error + CodeResponse) \<times> localServer) option" where
  "WaitForCode s =
     (case resultChan s of
        None \<Rightarrow> None
      | Some r \<Rightarrow> Some (r, s\<lparr>resultChan := None\<rparr>))"

subsection \<open>The token endpoint\<close>

text \<open>
  The interface \<^verbatim>\<open>httpClient\<close> has one method, \<^verbatim>\<open>PostForm(url, values)\<close>. A client is the
  function from a request to its outcome; the requests issued are collected in a log.
\<close>

type_synonym request = "string \<times> Values"

type_synonym 'r httpClient = "string \<Rightarrow> Values \<Rightarrow> error + 'r"

text \<open>
  Modelled from the spec: \<^verbatim>\<open>api.PostForm\<close> (package api) is not among the sources. The
  spec: the exchange "issues the POST via the injected HTTP capability, and parses the
  response". It issues one POST of the given form to the given URL through the client.
  How the response is decoded into a token (\<^verbatim>\<open>FormResponse.AccessToken\<close>) is a parameter
  of the flow's functions below.
\<close>

definition api_PostForm ::
  "'r httpClient \<Rightarrow> string \<Rightarrow> Values \<Rightarrow> request list \<Rightarrow> (error + 'r) \<times> request list" where
  "api_PostForm c url params log = (c url params, log @ [(url, params)])"

subsection \<open>Flow\<close>

record Flow =
  server :: localServer
  clientID :: string
  state :: string

text \<open>
  \<^verbatim>\<open>randomString(length)\<close> returns the pair \<^verbatim>\<open>(string, error)\<close>: \<^verbatim>\<open>("", err)\<close> when the
  random source fails, the hexadecimal string and \<^verbatim>\<open>nil\<close> otherwise. The length is a
  natural number: its only caller passes 20.
\<close>

definition randomString :: "nat \<Rightarrow> rand_Reader \<Rightarrow> string \<times> error option" where
  "randomString len r =
     (case rand_Read r (len div 2) of
        Inl err \<Rightarrow> ('''', Some err)
      | Inr b \<Rightarrow> (hex_EncodeToString b, None))"

text \<open>
  What \<^verbatim>\<open>InitFlow\<close> reads from its environment: the outcome of \<^verbatim>\<open>bindLocalServer\<close>
  and the random source.
\<close>

record env =
  bindLocalServer :: "error + localServer"
  rand :: rand_Reader

definition InitFlow :: "env \<Rightarrow> error + Flow" where
  "InitFlow e =
     (case bindLocalServer e of
        Inl err \<Rightarrow> Inl err
      | Inr srv \<Rightarrow>
          (let (st, _) = randomString 20 (rand e)
           in Inr \<lparr>server = srv, clientID = '''', state = st\<rparr>))"

text \<open>\<^verbatim>\<open>BrowserParams\<close> are the GET query parameters for initiating the web flow.\<close>

record BrowserParams =
  ClientID :: string
  RedirectURI :: string
  Scopes :: "string list"
  LoginHandle :: string
  AllowSignup :: bool

text \<open>
  \<^verbatim>\<open>BrowserURL\<close> returns \<^verbatim>\<open>(string, error)\<close> and updates the flow and its server; the
  result here is the returned value and the flow afterwards.
\<close>

definition BrowserURL :: "Flow \<Rightarrow> string \<Rightarrow> BrowserParams \<Rightarrow> (error + string) \<times> Flow" where
  "BrowserURL flow baseURL params =
     (case url_Parse (RedirectURI params) of
        Inl err \<Rightarrow> (Inl err, flow)
      | Inr ru \<Rightarrow>
          (let ru = ru\<lparr>Host := Hostname ru @ '':'' @ Itoa (Port (server flow))\<rparr>;
               flow = flow\<lparr>server := (server flow)\<lparr>CallbackPath := Path ru\<rparr>\<rparr>;
               flow = flow\<lparr>clientID := ClientID params\<rparr>;
               q = [];
               q = Values_Set ''client_id'' (ClientID params) q;
               q = Values_Set ''redirect_uri'' (URL_String ru) q;
               q = Values_Set ''scope'' (Join (Scopes params) '' '') q;
               q = Values_Set ''state'' (state flow) q;
               q = (if LoginHandle params \<noteq> '''' then Values_Set ''login'' (LoginHandle params) q
                    else q);
               q = (if \<not> AllowSignup params then Values_Set ''allow_signup'' ''false'' q else q)
           in (Inr (baseURL @ ''?'' @ Values_Encode q), flow)))"

text \<open>
  \<^verbatim>\<open>StartServer\<close> stores the renderer in the server and returns what \<^verbatim>\<open>Serve\<close> returns.
  \<^verbatim>\<open>Serve\<close> is a method of the server that is not among the sources: it is the parameter
  \<open>serve\<close>, any function of the server (\<open>None\<close>: it never returns).
\<close>

definition StartServer ::
  "(localServer \<Rightarrow> (error option \<times> localServer) option) \<Rightarrow> Flow \<Rightarrow> renderer
     \<Rightarrow> (error option \<times> Flow) option" where
  "StartServer serve flow writeSuccess =
     (case serve ((server flow)\<lparr>WriteSuccessHTML := Some writeSuccess\<rparr>) of
        None \<Rightarrow> None
      | Some (err, srv) \<Rightarrow> Some (err, flow\<lparr>server := srv\<rparr>))"

text \<open>
  \<^verbatim>\<open>AccessTokenWithParams\<close>. The argument \<open>postParams\<close> is \<open>None\<close> for Go's \<^verbatim>\<open>nil\<close>.
  The result is \<open>None\<close> when the wait for the callback never returns, and otherwise the
  returned token or error, the POST requests that were issued, and the flow afterwards.
  \<open>AccessToken_of\<close> stands for \<^verbatim>\<open>resp.AccessToken()\<close>. The four assignments write into
  the map that the caller passed, when it passed one; the map after them is the body of
  the POST in the log.
\<close>

definition AccessTokenWithParams ::
  "('r \<Rightarrow> error + 't) \<Rightarrow> Flow \<Rightarrow> 'r httpClient \<Rightarrow> string \<Rightarrow> string \<Rightarrow> Values option
     \<Rightarrow> ((error + 't) \<times> request list \<times> Flow) option" where
  "AccessTokenWithParams AccessToken_of flow c tokenURL clientSecret postParams =
     (case WaitForCode (server flow) of
        None \<Rightarrow> None
      | Some (r, srv) \<Rightarrow>
          (let flow = flow\<lparr>server := srv\<rparr> in
           case r of
             Inl err \<Rightarrow> Some (Inl err, [], flow)
           | Inr code \<Rightarrow>
               if State code \<noteq> state flow then Some (Inl StateMismatch, [], flow)
               else
                 (let postParams = (case postParams of None \<Rightarrow> [] | Some p \<Rightarrow> p);
                      postParams = Values_assign ''client_id'' [clientID flow] postParams;
                      postParams = Values_assign ''client_secret'' [clientSecret] postParams;
                      postParams = Values_assign ''code'' [Code code] postParams;
                      postParams = Values_assign ''state'' [state flow] postParams;
                      (resp, log) = api_PostForm c tokenURL postParams []
                  in case resp of
                       Inl err \<Rightarrow> Some (Inl err, log, flow)
                     | Inr resp \<Rightarrow> Some (AccessToken_of resp, log, flow))))"

definition AccessToken ::
  "('r \<Rightarrow> error + 't) \<Rightarrow> Flow \<Rightarrow> 'r httpClient \<Rightarrow> string \<Rightarrow> string
     \<Rightarrow> ((error + 't) \<times> request list \<times> Flow) option" where
  "AccessToken AccessToken_of flow c tokenURL clientSecret =
     AccessTokenWithParams AccessToken_of flow c tokenURL clientSecret None"

section \<open>Notions used to state the properties\<close>

text \<open>The pairs that \<^const>\<open>Values_Encode\<close> writes, in the order in which it writes them.\<close>

definition Values_pairs :: "Values \<Rightarrow> (string \<times> string) list" where
  "Values_pairs v =
     concat (map (\<lambda>k. map (Pair k) (case map_of v k of None \<Rightarrow> [] | Some vs \<Rightarrow> vs))
       (sort (remdups (map fst v))))"

definition encode_pair :: "string \<times> string \<Rightarrow> string" where
  "encode_pair p = QueryEscape (fst p) @ ''='' @ QueryEscape (snd p)"

text \<open>The bytes that \<^const>\<open>QueryEscape\<close> leaves in its result.\<close>

definition query_safe :: "char \<Rightarrow> bool" where
  "query_safe c = (isAlnum c \<or> c \<in> set ''-_.~+%'')"

text \<open>
  A parsed redirect URI of the common shape \<open>scheme://host[:port]/path\<close>: no opaque part,
  no user, no query, no fragment, and no byte in the hostname or the path that
  \<^const>\<open>URL_String\<close> would escape.
\<close>

definition plain_redirect :: "URL \<Rightarrow> bool" where
  "plain_redirect u =
     (Scheme u \<noteq> '''' \<and> Opaque u = '''' \<and> User u = None
      \<and> (\<forall>c \<in> set (Hostname u). \<not> shouldEscape c encodeHost)
      \<and> RawPath u = '''' \<and> (Path u = '''' \<or> hd (Path u) = CHR ''/'')
      \<and> (\<forall>c \<in> set (Path u). \<not> shouldEscape c encodePath)
      \<and> \<not> ForceQuery u \<and> RawQuery u = '''' \<and> Fragment u = '''')"

section \<open>Example inputs\<close>

definition ex_server :: localServer where
  "ex_server = \<lparr>listenerPort = 12345, CallbackPath = '''', WriteSuccessHTML = None,
     resultChan = None\<rparr>"

definition ex_env :: env where
  "ex_env = \<lparr>bindLocalServer = Inr ex_server, rand = Inr (\<lambda>i. of_nat (17 * i))\<rparr>"

definition ex_flow :: Flow where
  "ex_flow = \<lparr>server = ex_server, clientID = '''', state = ''00112233445566778899''\<rparr>"

definition ex_baseURL :: string where
  "ex_baseURL = ''https://github.com/login/oauth/authorize''"

definition ex_params :: BrowserParams where
  "ex_params = \<lparr>ClientID = ''CLIENT-ID'', RedirectURI = ''http://127.0.0.1/callback'',
     Scopes = [''repo'', ''read:org''], LoginHandle = '''', AllowSignup = True\<rparr>"

definition ex_params_login :: BrowserParams where
  "ex_params_login = \<lparr>ClientID = ''CLIENT-ID'', RedirectURI = ''http://127.0.0.1/callback'',
     Scopes = [''repo'', ''read:org''], LoginHandle = ''monalisa'', AllowSignup = False\<rparr>"

text \<open>The parsed redirect URI of the two examples.\<close>

definition ex_redirect :: URL where
  "ex_redirect = URL_new\<lparr>Scheme := ''http'', Host := ''127.0.0.1'', Path := ''/callback''\<rparr>"

text \<open>
  The flow after the authorization URL was built and a callback with the code \<open>abc123\<close>
  and the state \<open>st\<close> was received.
\<close>

definition ex_flow_called :: "string \<Rightarrow> Flow" where
  "ex_flow_called st =
     \<lparr>server = \<lparr>listenerPort = 12345, CallbackPath = ''/callback'',
                 WriteSuccessHTML = Some ''<html>ok</html>'',
                 resultChan = Some (Inr \<lparr>Code = ''abc123'', State = st, Error = None\<rparr>)\<rparr>,
      clientID = ''CLIENT-ID'', state = ''00112233445566778899''\<rparr>"


text \<open>A server that receives the callback of the example and is closed then.\<close>

definition ex_serve :: "localServer \<Rightarrow> (error option \<times> localServer) option" where
  "ex_serve srv =
     Some (Some (ServerError ''http: Server closed''),
           srv\<lparr>resultChan := Some (Inr \<lparr>Code = ''abc123'', State = ''00112233445566778899'',
                                         Error = None\<rparr>)\<rparr>)"

text \<open>A token endpoint that answers every request, and the decoding of its answer.\<close>

definition ex_client :: "string httpClient" where
  "ex_client url params = Inr ''access_token=tok_xyz&token_type=bearer''"

definition ex_AccessToken_of :: "string \<Rightarrow> error + string" where
  "ex_AccessToken_of resp = Inr ''tok_xyz''"

section \<open>Properties of the library functions\<close>

subsection \<open>Escaping and unescaping a query component\<close>

lemma upperhex_digit:
  assumes "n < 16"
  shows "ishex (upperhex ! n)" and "unhex (upperhex ! n) = n"
proof -
  have "[0..<16] = [0,1,2,3,4,5,6,7,8,9,10,11,12,13,14,15::nat]" by (simp add: upt_rec)
  moreover from assms have "n \<in> set [0..<16]" by simp
  ultimately have "n \<in> set [0,1,2,3,4,5,6,7,8,9,10,11,12,13,14,15::nat]" by simp
  then show "ishex (upperhex ! n)" "unhex (upperhex ! n) = n"
    by (auto simp: upperhex_def ishex_def unhex_def)
qed

lemma of_char_lt_256: "of_char c < (256::nat)"
  by (metis char_of_char of_char_of  mod_less_divisor zero_less_numeral)

lemma char_of_nibbles: "char_of (of_char c div 16 * 16 + of_char c mod (16::nat)) = c"
  by simp

lemma nibble_hi: "of_char c div 16 < (16::nat)"
  using of_char_lt_256 [of c] by arith

lemma shouldEscape_percent: "shouldEscape (CHR ''%'') encodeQueryComponent"
  by (simp add: shouldEscape_def isAlnum_def)

lemma shouldEscape_plus: "shouldEscape (CHR ''+'') encodeQueryComponent"
  by (simp add: shouldEscape_def isAlnum_def)

lemma unescape_escape_byte:
  "unescape (escape_byte encodeQueryComponent c @ s) encodeQueryComponent =
     (case unescape s encodeQueryComponent of Inl e \<Rightarrow> Inl e | Inr t \<Rightarrow> Inr (c # t))"
proof (cases "c = CHR '' ''")
  case True
  show ?thesis unfolding True by (simp add: escape_byte_def)
next
  case False
  show ?thesis
  proof (cases "shouldEscape c encodeQueryComponent")
    case True
    have hi: "ishex (upperhex ! (of_char c div 16))" "unhex (upperhex ! (of_char c div 16)) = of_char c div 16"
      using upperhex_digit [OF nibble_hi [of c]] by blast+
    have lo: "ishex (upperhex ! (of_char c mod 16))" "unhex (upperhex ! (of_char c mod 16)) = of_char c mod 16"
      using upperhex_digit [of "of_char c mod 16"] by simp_all
    have "escape_byte encodeQueryComponent c =
            [CHR ''%'', upperhex ! (of_char c div 16), upperhex ! (of_char c mod 16)]"
      using True False by (simp add: escape_byte_def)
    then have "unescape (escape_byte encodeQueryComponent c @ s) encodeQueryComponent =
       (case unescape s encodeQueryComponent of Inl e \<Rightarrow> Inl e
        | Inr t \<Rightarrow> Inr (char_of (unhex (upperhex ! (of_char c div 16)) * 16 +
                 unhex (upperhex ! (of_char c mod 16))) # t))"
      using hi(1) lo(1) by simp
    also have "char_of (unhex (upperhex ! (of_char c div 16)) * 16 +
                 unhex (upperhex ! (of_char c mod 16))) = c"
      unfolding hi(2) lo(2) by (rule char_of_nibbles)
    finally show ?thesis .
  next
    case no: False
    then have "c \<noteq> CHR ''%''" "c \<noteq> CHR ''+''"
      using shouldEscape_percent shouldEscape_plus by auto
    with no False show ?thesis by (simp add: escape_byte_def)
  qed
qed

lemma QueryUnescape_QueryEscape: "QueryUnescape (QueryEscape s) = Inr s"
  unfolding QueryUnescape_def QueryEscape_def escape_def
  by (induction s) (simp_all add: unescape_escape_byte)

subsection \<open>Encoding form values and parsing them back\<close>

lemma query_safe_escape_byte: "\<forall>x \<in> set (escape_byte encodeQueryComponent c). query_safe x"
proof (cases "c = CHR '' ''")
  case True
  then show ?thesis by (simp add: escape_byte_def query_safe_def)
next
  case False
  show ?thesis
  proof (cases "shouldEscape c encodeQueryComponent")
    case True
    have "isAlnum (upperhex ! n)" if "n < 16" for n
    proof -
      have "[0..<16] = [0,1,2,3,4,5,6,7,8,9,10,11,12,13,14,15::nat]" by (simp add: upt_rec)
      moreover from that have "n \<in> set [0..<16]" by simp
      ultimately have "n \<in> set [0,1,2,3,4,5,6,7,8,9,10,11,12,13,14,15::nat]" by simp
      then show ?thesis by (auto simp: upperhex_def isAlnum_def)
    qed
    from this [OF nibble_hi [of c]] this [of "of_char c mod 16"] True False
    show ?thesis by (simp add: escape_byte_def query_safe_def)
  next
    case no: False
    then have "isAlnum c \<or> c \<in> set ''-_.~''"
      by (auto simp: shouldEscape_def split: if_splits)
    with no False show ?thesis by (auto simp: escape_byte_def query_safe_def)
  qed
qed

lemma query_safe_QueryEscape: "x \<in> set (QueryEscape s) \<Longrightarrow> query_safe x"
  using query_safe_escape_byte by (auto simp: QueryEscape_def escape_def)

lemma not_query_safe [simp]:
  "\<not> query_safe (CHR ''&'')" "\<not> query_safe (CHR ''='')" "\<not> query_safe (CHR '';'')"
  "\<not> query_safe (CHR ''?'')" "\<not> query_safe (CHR ''#'')"
  by (simp_all add: query_safe_def isAlnum_def)

lemma QueryEscape_no_sep [simp]:
  "CHR ''&'' \<notin> set (QueryEscape s)" "CHR ''='' \<notin> set (QueryEscape s)"
  "CHR '';'' \<notin> set (QueryEscape s)" "CHR ''?'' \<notin> set (QueryEscape s)"
  "CHR ''#'' \<notin> set (QueryEscape s)"
  using query_safe_QueryEscape not_query_safe by blast+

lemma Index_byte_found: "c \<notin> set a \<Longrightarrow> Index (a @ c # rest) [c] = Some (length a)"
  by (induction a) (auto simp: HasPrefix_def)

lemma Index_byte_none: "c \<notin> set a \<Longrightarrow> Index a [c] = None"
  by (induction a) (auto simp: HasPrefix_def)

lemma Cut_byte_found: "c \<notin> set a \<Longrightarrow> Cut (a @ c # rest) [c] = (a, rest, True)"
  by (simp add: Cut_def Index_byte_found)

lemma Contains_byte_none: "c \<notin> set a \<Longrightarrow> \<not> Contains a [c]"
  by (simp add: Contains_def Index_byte_none)

lemma split_amp_piece:
  "CHR ''&'' \<notin> set a \<Longrightarrow> split_amp cur (a @ CHR ''&'' # rest) = (cur @ a) # split_amp [] rest"
  by (induction a arbitrary: cur) auto

lemma split_amp_last:
  "CHR ''&'' \<notin> set a \<Longrightarrow> split_amp cur a = (if cur @ a = [] then [] else [cur @ a])"
  by (induction a arbitrary: cur) auto

lemma encode_pair_props:
  "CHR ''&'' \<notin> set (encode_pair p)" "CHR '';'' \<notin> set (encode_pair p)" "encode_pair p \<noteq> []"
  by (simp_all add: encode_pair_def)

lemma split_amp_Join:
  "split_amp [] (Join (map encode_pair ps) ''&'') = map encode_pair ps"
proof (induction ps)
  case Nil
  show ?case by simp
next
  case (Cons p ps)
  show ?case
  proof (cases ps)
    case Nil
    then show ?thesis by (simp add: split_amp_last encode_pair_props)
  next
    case (Cons q qs)
    have "split_amp [] (encode_pair p @ CHR ''&'' # Join (map encode_pair (q # qs)) ''&'')
            = ([] @ encode_pair p) # split_amp [] (Join (map encode_pair (q # qs)) ''&'')"
      by (rule split_amp_piece) (rule encode_pair_props)
    with Cons Cons.IH show ?thesis by simp
  qed
qed

lemma parseQuery_pairs_encoded:
  "parseQuery_pairs (map encode_pair ps) m err =
     (foldl (\<lambda>m p. Values_Add (fst p) (snd p) m) m ps, err)"
proof (induction ps arbitrary: m)
  case Nil
  show ?case by simp
next
  case (Cons p ps)
  have c: "Cut (encode_pair p) ''='' = (QueryEscape (fst p), QueryEscape (snd p), True)"
    unfolding encode_pair_def by (simp add: Cut_byte_found)
  have s: "\<not> Contains (encode_pair p) '';''"
    by (rule Contains_byte_none) (rule encode_pair_props)
  show ?case
    using Cons.IH
    by (simp add: c s encode_pair_props QueryUnescape_QueryEscape)
qed

lemma Encode_values_foldl:
  "Encode_values (QueryEscape k) vs buf =
     foldl (\<lambda>b s. (if b = [] then b else b @ ''&'') @ s) buf (map (\<lambda>x. encode_pair (k, x)) vs)"
  by (induction vs arbitrary: buf) (simp_all add: encode_pair_def)

lemma Encode_keys_foldl:
  "Encode_keys v keys buf =
     foldl (\<lambda>b s. (if b = [] then b else b @ ''&'') @ s) buf
       (map encode_pair
         (concat (map (\<lambda>k. map (Pair k) (case map_of v k of None \<Rightarrow> [] | Some vs \<Rightarrow> vs)) keys)))"
  by (induction keys arbitrary: buf) (simp_all add: Encode_values_foldl comp_def)

lemma Join_Cons: "Join (x # xs) sep = (if xs = [] then x else x @ sep @ Join xs sep)"
  by (cases xs) simp_all

lemma foldl_amp_Join:
  "\<forall>x \<in> set xs. x \<noteq> [] \<Longrightarrow>
   foldl (\<lambda>b s. (if b = [] then b else b @ ''&'') @ s) buf xs =
     (if xs = [] then buf else (if buf = [] then buf else buf @ ''&'') @ Join xs ''&'')"
proof (induction xs arbitrary: buf)
  case Nil
  show ?case by simp
next
  case (Cons x xs)
  have x: "x \<noteq> []" and xs: "\<forall>x \<in> set xs. x \<noteq> []"
    using Cons.prems by simp_all
  have ne: "(if buf = [] then buf else buf @ ''&'') @ x \<noteq> []"
    using x by simp
  show ?case
    unfolding foldl_Cons Cons.IH [OF xs] Join_Cons
    using ne by (simp del: Join.simps)
qed

lemma Values_Encode_Join:
  "Values_Encode v = Join (map encode_pair (Values_pairs v)) ''&''"
proof (cases "v = []")
  case True
  then show ?thesis by (simp add: Values_Encode_def Values_pairs_def)
next
  case False
  let ?xs = "map encode_pair (Values_pairs v)"
  have e: "Values_Encode v = foldl (\<lambda>b s. (if b = [] then b else b @ ''&'') @ s) [] ?xs"
    using False by (simp add: Values_Encode_def Encode_keys_foldl Values_pairs_def)
  have "\<forall>x \<in> set ?xs. x \<noteq> []"
    by (simp add: encode_pair_props)
  from foldl_amp_Join [OF this, of "[]"] have
    "foldl (\<lambda>b s. (if b = [] then b else b @ ''&'') @ s) [] ?xs =
       (if ?xs = [] then [] else Join ?xs ''&'')" by simp
  also have "\<dots> = Join ?xs ''&''" by (cases "?xs = []") simp_all
  finally show ?thesis using e by simp
qed

lemma ParseQuery_Values_Encode:
  "ParseQuery (Values_Encode v) =
     (foldl (\<lambda>m p. Values_Add (fst p) (snd p) m) [] (Values_pairs v), None)"
  by (simp add: ParseQuery_def Values_Encode_Join split_amp_Join parseQuery_pairs_encoded)

subsection \<open>The query string of the authorization URL\<close>

lemma QueryEscape_keys:
  "QueryEscape ''client_id'' = ''client_id''"
  "QueryEscape ''redirect_uri'' = ''redirect_uri''"
  "QueryEscape ''scope'' = ''scope''"
  "QueryEscape ''state'' = ''state''"
  "QueryEscape ''login'' = ''login''"
  "QueryEscape ''allow_signup'' = ''allow_signup''"
  "QueryEscape ''false'' = ''false''"
  by (simp_all add: QueryEscape_def escape_def escape_byte_def shouldEscape_def isAlnum_def)

lemma BrowserURL_parsed:
  assumes "url_Parse (RedirectURI params) = Inr ru"
  shows "BrowserURL flow baseURL params =
    (Inr (baseURL @ ''?'' @ Values_Encode
       ([(''client_id'', [ClientID params]),
         (''redirect_uri'', [URL_String (ru\<lparr>Host := Hostname ru @ '':'' @ Itoa (Port (server flow))\<rparr>)]),
         (''scope'', [Join (Scopes params) '' '']),
         (''state'', [state flow])]
        @ (if LoginHandle params \<noteq> '''' then [(''login'', [LoginHandle params])] else [])
        @ (if \<not> AllowSignup params then [(''allow_signup'', [''false''])] else []))),
     flow\<lparr>server := (server flow)\<lparr>CallbackPath := Path ru\<rparr>, clientID := ClientID params\<rparr>)"
  using assms
  by (simp add: BrowserURL_def Let_def Values_Set_def Values_assign_def)

lemma BrowserURL_pairs:
  "Values_pairs
       ([(''client_id'', [c]), (''redirect_uri'', [r]), (''scope'', [s]), (''state'', [t])]
        @ (if l \<noteq> '''' then [(''login'', [l])] else [])
        @ (if \<not> a then [(''allow_signup'', [''false''])] else []))
   = (if \<not> a then [(''allow_signup'', ''false'')] else [])
     @ [(''client_id'', c)]
     @ (if l \<noteq> '''' then [(''login'', l)] else [])
     @ [(''redirect_uri'', r), (''scope'', s), (''state'', t)]"
  by (simp add: Values_pairs_def)

lemma BrowserURL_explicit:
  assumes "url_Parse (RedirectURI params) = Inr ru"
  shows "fst (BrowserURL flow baseURL params) = Inr (baseURL @ ''?'' @
      (if AllowSignup params then '''' else ''allow_signup=false&'') @
      ''client_id='' @ QueryEscape (ClientID params) @ ''&'' @
      (if LoginHandle params = '''' then '''' else ''login='' @ QueryEscape (LoginHandle params) @ ''&'') @
      ''redirect_uri='' @ QueryEscape (URL_String (ru\<lparr>Host := Hostname ru @ '':'' @ Itoa (Port (server flow))\<rparr>)) @
      ''&scope='' @ QueryEscape (Join (Scopes params) '' '') @
      ''&state='' @ QueryEscape (state flow))"
  unfolding BrowserURL_parsed [OF assms] Values_Encode_Join BrowserURL_pairs
  by (simp add: encode_pair_def QueryEscape_keys)

subsection \<open>Serializing the rewritten redirect URI\<close>

lemma escape_byte_id: "\<not> shouldEscape c mode \<Longrightarrow> escape_byte mode c = [c]"
  unfolding escape_byte_def
  by (cases "c = CHR '' ''") (simp_all add: shouldEscape_def isAlnum_def)

lemma escape_id: "\<forall>c \<in> set s. \<not> shouldEscape c mode \<Longrightarrow> escape s mode = s"
  by (induction s) (simp_all add: escape_def escape_byte_id)

lemma digit_char: "d < 10 \<Longrightarrow> isAlnum (digit_table ! d)"
proof -
  assume "d < 10"
  have "[0..<10] = [0,1,2,3,4,5,6,7,8,9::nat]" by (simp add: upt_rec)
  moreover from \<open>d < 10\<close> have "d \<in> set [0..<10]" by simp
  ultimately have "d \<in> set [0,1,2,3,4,5,6,7,8,9::nat]" by simp
  then show ?thesis by (auto simp: digit_table_def isAlnum_def)
qed

lemma digits_alnum: "c \<in> set (digits n) \<Longrightarrow> isAlnum c"
proof (induction n arbitrary: c rule: digits.induct)
  case (1 n)
  show ?case
  proof (cases "n < 10")
    case True
    with "1.prems" show ?thesis
      by (subst (asm) digits.simps) (simp add: digit_char)
  next
    case False
    with "1.prems" have "c \<in> set (digits (n div 10)) \<or> c = digit_table ! (n mod 10)"
      by (subst (asm) digits.simps) auto
    with "1.IH" False show ?thesis
      using digit_char [of "n mod 10"] by auto
  qed
qed

lemma alnum_host_safe: "isAlnum c \<Longrightarrow> \<not> shouldEscape c encodeHost"
  by (simp add: shouldEscape_def)

lemma Itoa_host_safe: "c \<in> set (Itoa i) \<Longrightarrow> \<not> shouldEscape c encodeHost"
proof (cases "c = CHR ''-''")
  case True
  then show ?thesis by (simp add: shouldEscape_def)
next
  case False
  assume "c \<in> set (Itoa i)"
  with False have "isAlnum c"
    by (auto simp: Itoa_def dest: digits_alnum split: if_splits)
  then show ?thesis by (rule alnum_host_safe)
qed

lemma URL_String_plain:
  assumes "plain_redirect u"
  shows "URL_String (u\<lparr>Host := Hostname u @ '':'' @ Itoa p\<rparr>) =
           Scheme u @ ''://'' @ Hostname u @ '':'' @ Itoa p @ Path u"
proof -
  let ?h = "Hostname u @ '':'' @ Itoa p"
  have c: "\<not> shouldEscape (CHR '':'') encodeHost"
    by (simp add: shouldEscape_def isAlnum_def)
  have "\<forall>c \<in> set ?h. \<not> shouldEscape c encodeHost"
    using assms Itoa_host_safe c by (auto simp: plain_redirect_def)
  then have h: "escape ?h encodeHost = ?h" by (rule escape_id)
  have "escape (Path u) encodePath = Path u"
    using assms by (intro escape_id) (simp add: plain_redirect_def)
  moreover have "RawPath u = []" using assms by (simp add: plain_redirect_def)
  ultimately have p: "EscapedPath (u\<lparr>Host := ?h\<rparr>) = Path u"
    by (simp add: EscapedPath_def)
  have s: "Path u \<noteq> '''' \<longrightarrow> hd (Path u) = CHR ''/''"
    using assms by (auto simp: plain_redirect_def)
  have f: "Scheme u \<noteq> ''''" "Opaque u = ''''" "User u = None" "\<not> ForceQuery u"
     "RawQuery u = ''''" "Fragment u = ''''"
    using assms by (simp_all add: plain_redirect_def)
  show ?thesis
    unfolding URL_String_def Let_def p
    using h s f by auto
qed

subsection \<open>The query of the parsed authorization URL\<close>

lemma getScheme_loop_rest:
  "CHR ''?'' \<notin> set b \<Longrightarrow> getScheme_loop raw pre (b @ CHR ''?'' # qs) = Inr (sch, rest) \<Longrightarrow>
     rest = raw \<or> (\<exists>b'. rest = b' @ CHR ''?'' # qs \<and> CHR ''?'' \<notin> set b')"
proof (induction b arbitrary: pre)
  case Nil
  then show ?case by (simp split: if_splits)
next
  case (Cons c b)
  from Cons.prems have nq: "CHR ''?'' \<notin> set b" by simp
  from Cons.prems(2) show ?case
    using Cons.IH [OF nq] nq by (auto split: if_splits)
qed

lemma HasSuffix_byte: "s \<noteq> [] \<Longrightarrow> HasSuffix s [c] = (last s = c)"
proof (induction s rule: rev_induct)
  case Nil
  then show ?case by simp
next
  case (snoc x xs)
  show ?case by (simp add: HasSuffix_def)
qed

lemma setPath_RawQuery: "setPath u p = Inr u' \<Longrightarrow> RawQuery u' = RawQuery u"
  by (auto simp: setPath_def split: sum.splits)

lemma parse_RawQuery:
  assumes "parse (b @ CHR ''?'' # qs) = Inr u"
    and "CHR ''?'' \<notin> set b" and "CHR ''?'' \<notin> set qs" and "qs \<noteq> []"
  shows "RawQuery u = qs"
proof -
  let ?raw = "b @ CHR ''?'' # qs"
  have star: "?raw \<noteq> ''*''"
  proof
    assume "?raw = ''*''"
    then have "length ?raw = 1" by simp
    with assms(4) show False by simp
  qed
  from assms(1) star obtain sch rest where g: "getScheme ?raw = Inr (sch, rest)"
    by (auto simp: parse_def split: if_splits sum.splits)
  from getScheme_loop_rest [OF assms(2), of ?raw "[]" qs sch rest] g
  obtain b' where rest: "rest = b' @ CHR ''?'' # qs" and b': "CHR ''?'' \<notin> set b'"
    using assms(2) by (auto simp: getScheme_def)
  have "last rest \<in> set qs" using assms(4) by (simp add: rest)
  then have "last rest \<noteq> CHR ''?''" using assms(3) by auto
  then have suf: "\<not> HasSuffix rest ''?''" by (simp add: HasSuffix_byte rest)
  have cut: "Cut rest ''?'' = (b', qs, True)"
    unfolding rest by (rule Cut_byte_found) (rule b')
  from assms(1) show ?thesis
    unfolding parse_def
    using g suf cut star
    by (auto simp: Let_def split: if_splits sum.splits option.splits prod.splits
          dest!: setPath_RawQuery)
qed

lemma url_Parse_RawQuery:
  assumes "url_Parse (b @ ''?'' @ qs) = Inr u"
    and "CHR ''?'' \<notin> set b" and "CHR ''#'' \<notin> set b"
    and "CHR ''?'' \<notin> set qs" and "CHR ''#'' \<notin> set qs" and "qs \<noteq> []"
  shows "RawQuery u = qs"
proof -
  have "CHR ''#'' \<notin> set (b @ ''?'' @ qs)" using assms by simp
  then have "Cut (b @ ''?'' @ qs) ''#'' = (b @ ''?'' @ qs, '''', False)"
    by (simp add: Cut_def Index_byte_none)
  with assms(1) have "parse (b @ CHR ''?'' # qs) = Inr u"
    by (simp add: url_Parse_def split: sum.splits)
  then show ?thesis using assms(2,4,6) by (rule parse_RawQuery)
qed

lemma Join_chars:
  "x \<in> set (Join xs sep) \<Longrightarrow> x \<in> set sep \<or> (\<exists>y \<in> set xs. x \<in> set y)"
  by (induction xs sep rule: Join.induct) auto

lemma Values_Encode_chars:
  assumes "x \<in> set (Values_Encode v)"
  shows "query_safe x \<or> x = CHR ''='' \<or> x = CHR ''&''"
proof -
  from assms Join_chars [of x "map encode_pair (Values_pairs v)" "''&''"]
  have "x = CHR ''&'' \<or> (\<exists>p. x \<in> set (encode_pair p))"
    by (auto simp: Values_Encode_Join)
  then show ?thesis
    by (auto simp: encode_pair_def dest: query_safe_QueryEscape)
qed

lemma Values_Encode_no_query_mark:
  "CHR ''?'' \<notin> set (Values_Encode v)" "CHR ''#'' \<notin> set (Values_Encode v)"
  using Values_Encode_chars [of "CHR ''?''" v] Values_Encode_chars [of "CHR ''#''" v]
  by auto

section \<open>The claims about the flow\<close>

subsection \<open>Token exchange\<close>

lemma map_of_Values_assign:
  "map_of (Values_assign k vs v) = (map_of v)(k \<mapsto> vs)"
  by (simp add: Values_assign_def update_conv')

lemma exchange_failed:
  assumes "WaitForCode (server flow) = Some (Inl err, srv)"
  shows "AccessTokenWithParams AccessToken_of flow c tokenURL clientSecret postParams =
           Some (Inl err, [], flow\<lparr>server := srv\<rparr>)"
  using assms by (simp add: AccessTokenWithParams_def)

lemma exchange_posts:
  assumes "WaitForCode (server flow) = Some (Inr code, srv)" and "State code = state flow"
  shows "AccessTokenWithParams AccessToken_of flow c tokenURL clientSecret postParams =
    (let body = Values_assign ''state'' [state flow]
                 (Values_assign ''code'' [Code code]
                   (Values_assign ''client_secret'' [clientSecret]
                     (Values_assign ''client_id'' [clientID flow]
                       (case postParams of None \<Rightarrow> [] | Some p \<Rightarrow> p))))
     in Some (case c tokenURL body of Inl err \<Rightarrow> Inl err | Inr resp \<Rightarrow> AccessToken_of resp,
              [(tokenURL, body)], flow\<lparr>server := srv\<rparr>))"
  using assms
  by (simp add: AccessTokenWithParams_def api_PostForm_def Let_def split: sum.splits)

lemma ex_WaitForCode:
  "WaitForCode (server (ex_flow_called st)) =
     Some (Inr \<lparr>Code = ''abc123'', State = st, Error = None\<rparr>, (server (ex_flow_called st))\<lparr>resultChan := None\<rparr>)"
  by (simp add: WaitForCode_def ex_flow_called_def)

text \<open>
  C1. When the callback result that the wait returns has a state different from the
  flow's state, the exchange fails with the state mismatch error and issues no POST.
\<close>

theorem exchange_state_mismatch:
  assumes "WaitForCode (server flow) = Some (Inr code, srv)" and "State code \<noteq> state flow"
  shows "AccessTokenWithParams AccessToken_of flow c tokenURL clientSecret postParams =
           Some (Inl StateMismatch, [], flow\<lparr>server := srv\<rparr>)"
  using assms by (simp add: AccessTokenWithParams_def)

theorem exchange_state_mismatch_witness:
  "WaitForCode (server (ex_flow_called ''evil'')) =
     Some (Inr \<lparr>Code = ''abc123'', State = ''evil'', Error = None\<rparr>,
           (server (ex_flow_called ''evil''))\<lparr>resultChan := None\<rparr>)
   \<and> State \<lparr>Code = ''abc123'', State = ''evil'', Error = None\<rparr> \<noteq> state (ex_flow_called ''evil'')
   \<and> AccessTokenWithParams ex_AccessToken_of (ex_flow_called ''evil'') ex_client
         ''https://github.com/login/oauth/access_token'' ''SECRET'' None =
       Some (Inl StateMismatch, [],
             (ex_flow_called ''evil'')\<lparr>server := (server (ex_flow_called ''evil''))\<lparr>resultChan := None\<rparr>\<rparr>)"
proof -
  note h1 = ex_WaitForCode [of "''evil''"]
  have h2: "State \<lparr>Code = ''abc123'', State = ''evil'', Error = None\<rparr> \<noteq> state (ex_flow_called ''evil'')"
    by (simp add: ex_flow_called_def)
  from exchange_state_mismatch [OF h1 h2] h1 h2 show ?thesis by simp
qed


text \<open>
  An error that the wait itself returns (a listener error) is returned by the exchange,
  which issues no POST then.
\<close>

lemma exchange_listener_error:
  assumes "resultChan (server flow) = Some (Inl err)"
  shows "AccessTokenWithParams AccessToken_of flow c tokenURL clientSecret postParams =
           Some (Inl err, [], flow\<lparr>server := (server flow)\<lparr>resultChan := None\<rparr>\<rparr>)"
proof -
  from assms have "WaitForCode (server flow) = Some (Inl err, (server flow)\<lparr>resultChan := None\<rparr>)"
    by (simp add: WaitForCode_def)
  then show ?thesis by (rule exchange_failed)
qed

text \<open>
  C5. When the callback's state equals the flow's state, the exchange issues one POST
  to the token URL, and in its body \<open>client_id\<close>, \<open>client_secret\<close>, \<open>code\<close> and \<open>state\<close>
  are the flow's client id, the given secret, the callback's code and the flow's state,
  whatever the caller supplied for these keys.
\<close>

theorem exchange_post_body:
  assumes "WaitForCode (server flow) = Some (Inr code, srv)" and "State code = state flow"
  shows "\<exists>res body.
           AccessTokenWithParams AccessToken_of flow c tokenURL clientSecret postParams =
             Some (res, [(tokenURL, body)], flow\<lparr>server := srv\<rparr>)
           \<and> map_of body ''client_id'' = Some [clientID flow]
           \<and> map_of body ''client_secret'' = Some [clientSecret]
           \<and> map_of body ''code'' = Some [Code code]
           \<and> map_of body ''state'' = Some [state flow]"
  unfolding exchange_posts [OF assms] Let_def
  by (simp add: map_of_Values_assign)

theorem exchange_post_body_witness:
  "WaitForCode (server (ex_flow_called ''00112233445566778899'')) =
      Some (Inr \<lparr>Code = ''abc123'', State = ''00112233445566778899'', Error = None\<rparr>,
            (server (ex_flow_called ''00112233445566778899''))\<lparr>resultChan := None\<rparr>)
   \<and> State \<lparr>Code = ''abc123'', State = ''00112233445566778899'', Error = None\<rparr> =
       state (ex_flow_called ''00112233445566778899'')
   \<and> (\<exists>res body flow'.
         AccessTokenWithParams ex_AccessToken_of (ex_flow_called ''00112233445566778899'') ex_client
           ''https://github.com/login/oauth/access_token'' ''SECRET''
           (Some [(''client_id'', [''EVIL'']), (''state'', [''forged'']),
                  (''grant_type'', [''authorization_code''])]) =
           Some (res, [(''https://github.com/login/oauth/access_token'', body)], flow')
         \<and> map_of body ''client_id'' = Some [''CLIENT-ID'']
         \<and> map_of body ''client_secret'' = Some [''SECRET'']
         \<and> map_of body ''code'' = Some [''abc123'']
         \<and> map_of body ''state'' = Some [''00112233445566778899''])"
proof -
  let ?f = "ex_flow_called ''00112233445566778899''"
  let ?c = "\<lparr>Code = ''abc123'', State = ''00112233445566778899'', Error = None\<rparr>"
  note h1 = ex_WaitForCode [of "''00112233445566778899''"]
  have h2: "State ?c = state ?f" by (simp add: ex_flow_called_def)
  have f: "clientID ?f = ''CLIENT-ID''" "state ?f = ''00112233445566778899''"
    by (simp_all add: ex_flow_called_def)
  from exchange_post_body [OF h1 h2, of ex_AccessToken_of ex_client
      "''https://github.com/login/oauth/access_token''" "''SECRET''"
      "Some [(''client_id'', [''EVIL'']), (''state'', [''forged'']),
                  (''grant_type'', [''authorization_code''])]"]
  show ?thesis using h1 h2 unfolding f by auto
qed

text \<open>
  C10. An entry of the caller's parameters whose key is none of \<open>client_id\<close>,
  \<open>client_secret\<close>, \<open>code\<close>, \<open>state\<close> is in the POST body as the caller gave it.
\<close>

theorem exchange_extra_params:
  assumes "WaitForCode (server flow) = Some (Inr code, srv)" and "State code = state flow"
    and "k \<notin> {''client_id'', ''client_secret'', ''code'', ''state''}"
  shows "\<exists>res body.
           AccessTokenWithParams AccessToken_of flow c tokenURL clientSecret (Some params) =
             Some (res, [(tokenURL, body)], flow\<lparr>server := srv\<rparr>)
           \<and> map_of body k = map_of params k"
  unfolding exchange_posts [OF assms(1,2)] Let_def
  using assms(3) by (simp add: map_of_Values_assign)

theorem exchange_extra_params_witness:
  "WaitForCode (server (ex_flow_called ''00112233445566778899'')) =
      Some (Inr \<lparr>Code = ''abc123'', State = ''00112233445566778899'', Error = None\<rparr>,
            (server (ex_flow_called ''00112233445566778899''))\<lparr>resultChan := None\<rparr>)
   \<and> State \<lparr>Code = ''abc123'', State = ''00112233445566778899'', Error = None\<rparr> =
       state (ex_flow_called ''00112233445566778899'')
   \<and> ''grant_type'' \<notin> {''client_id'', ''client_secret'', ''code'', ''state''}
   \<and> (\<exists>res body flow'.
         AccessTokenWithParams ex_AccessToken_of (ex_flow_called ''00112233445566778899'') ex_client
           ''https://github.com/login/oauth/access_token'' ''SECRET''
           (Some [(''client_id'', [''EVIL'']), (''grant_type'', [''authorization_code''])]) =
           Some (res, [(''https://github.com/login/oauth/access_token'', body)], flow')
         \<and> map_of body ''grant_type'' = Some [''authorization_code''])"
proof -
  let ?f = "ex_flow_called ''00112233445566778899''"
  let ?c = "\<lparr>Code = ''abc123'', State = ''00112233445566778899'', Error = None\<rparr>"
  note h1 = ex_WaitForCode [of "''00112233445566778899''"]
  have h2: "State ?c = state ?f" by (simp add: ex_flow_called_def)
  have h3: "''grant_type'' \<notin> {''client_id'', ''client_secret'', ''code'', ''state''}" by simp
  from exchange_extra_params [OF h1 h2 h3, of ex_AccessToken_of ex_client
      "''https://github.com/login/oauth/access_token''" "''SECRET''"
      "[(''client_id'', [''EVIL'']), (''grant_type'', [''authorization_code''])]"]
  show ?thesis using h1 h2 h3 by auto
qed

text \<open>
  C9. \<^verbatim>\<open>AccessToken\<close> is \<^verbatim>\<open>AccessTokenWithParams\<close> with \<^verbatim>\<open>nil\<close> parameters, and \<^verbatim>\<open>nil\<close>
  parameters give the same result, the same POST requests and the same flow as an empty
  set of parameters.
\<close>

theorem AccessToken_nil_params:
  "AccessToken AccessToken_of flow c tokenURL clientSecret =
     AccessTokenWithParams AccessToken_of flow c tokenURL clientSecret None
   \<and> AccessTokenWithParams AccessToken_of flow c tokenURL clientSecret None =
     AccessTokenWithParams AccessToken_of flow c tokenURL clientSecret (Some [])"
  by (simp add: AccessToken_def AccessTokenWithParams_def split: option.split sum.split prod.split)

subsection \<open>Construction of the flow\<close>

lemma length_hex_EncodeToString: "length (hex_EncodeToString b) = 2 * length b"
  by (induction b) (simp_all add: hex_EncodeToString_def)

lemma randomString_ok:
  "randomString n (Inr src) = (hex_EncodeToString (map src [0..<n div 2]), None)"
  by (simp add: randomString_def rand_Read_def)

lemma randomString_failed: "randomString n (Inl err) = ('''', Some err)"
  by (simp add: randomString_def rand_Read_def)

lemma randomString_length:
  "snd (randomString 20 r) = None \<Longrightarrow> length (fst (randomString 20 r)) = 20"
  by (cases r) (simp_all add: randomString_ok randomString_failed length_hex_EncodeToString)

lemma InitFlow_state:
  "InitFlow e = Inr flow \<Longrightarrow> state flow = fst (randomString 20 (rand e))"
  by (auto simp: InitFlow_def split: sum.splits prod.splits)

text \<open>
  C4. The code does not do what the claim says: when \<^verbatim>\<open>bindLocalServer\<close> succeeds and
  the random source fails, \<^verbatim>\<open>InitFlow\<close> drops the error that \<^verbatim>\<open>randomString\<close> returns and
  returns a flow whose state is the empty string, and no error.
\<close>

theorem InitFlow_random_failure:
  "InitFlow \<lparr>bindLocalServer = Inr srv, rand = Inl err\<rparr> =
     Inr \<lparr>server = srv, clientID = '''', state = ''''\<rparr>"
  by (simp add: InitFlow_def randomString_failed)

subsection \<open>What the operations do to the state\<close>

lemma BrowserURL_state: "state (snd (BrowserURL flow baseURL params)) = state flow"
  by (simp add: BrowserURL_def Let_def split: sum.splits)

lemma StartServer_state:
  "StartServer serve flow writeSuccess = Some (err, flow') \<Longrightarrow> state flow' = state flow"
  by (auto simp: StartServer_def split: option.splits)

lemma AccessTokenWithParams_state:
  "AccessTokenWithParams AccessToken_of flow c tokenURL clientSecret postParams =
     Some (res, posts, flow') \<Longrightarrow> state flow' = state flow"
  by (auto simp: AccessTokenWithParams_def WaitForCode_def Let_def api_PostForm_def
        split: option.splits sum.splits if_splits)

lemma AccessTokenWithParams_posts:
  assumes "AccessTokenWithParams AccessToken_of flow c tokenURL clientSecret postParams =
     Some (res, posts, flow')" and "req \<in> set posts"
  shows "map_of (snd req) ''state'' = Some [state flow]
     \<and> (\<exists>code srv. WaitForCode (server flow) = Some (Inr code, srv)
                    \<and> State code = state flow)"
  using assms
  by (auto simp: AccessTokenWithParams_def WaitForCode_def Let_def api_PostForm_def
        map_of_Values_assign split: option.splits sum.splits if_splits)

subsection \<open>The authorization URL\<close>

lemma BrowserURL_query_parsed:
  "ParseQuery (Values_Encode
       ([(''client_id'', [c]), (''redirect_uri'', [r]), (''scope'', [s]), (''state'', [t])]
        @ (if l \<noteq> '''' then [(''login'', [l])] else [])
        @ (if \<not> a then [(''allow_signup'', [''false''])] else [])))
   = ((if \<not> a then [(''allow_signup'', [''false''])] else [])
      @ [(''client_id'', [c])]
      @ (if l \<noteq> '''' then [(''login'', [l])] else [])
      @ [(''redirect_uri'', [r]), (''scope'', [s]), (''state'', [t])], None)"
proof -
  have add: "Values_Add k x [] = [(k, [x])]" for k x
    by (simp add: Values_Add_def Values_assign_def)
  have snoc: "k \<notin> fst ` set m \<Longrightarrow> Values_Add k x m = m @ [(k, [x])]" for k x m
    by (induction m) (auto simp: Values_Add_def Values_assign_def map_of_eq_None_iff [symmetric]
          simp del: map_of_eq_None_iff)
  show ?thesis
    unfolding ParseQuery_Values_Encode BrowserURL_pairs
    by (cases a; cases "l = ''''") (simp_all add: snoc)
qed

lemma BrowserURL_result:
  assumes "url_Parse (RedirectURI params) = Inr ru"
  shows "\<exists>qs. BrowserURL flow baseURL params =
           (Inr (baseURL @ ''?'' @ qs),
            flow\<lparr>server := (server flow)\<lparr>CallbackPath := Path ru\<rparr>, clientID := ClientID params\<rparr>)
         \<and> ParseQuery qs =
           ((if \<not> AllowSignup params then [(''allow_signup'', [''false''])] else [])
            @ [(''client_id'', [ClientID params])]
            @ (if LoginHandle params \<noteq> '''' then [(''login'', [LoginHandle params])] else [])
            @ [(''redirect_uri'',
                 [URL_String (ru\<lparr>Host := Hostname ru @ '':'' @ Itoa (Port (server flow))\<rparr>)]),
               (''scope'', [Join (Scopes params) '' '']), (''state'', [state flow])], None)
         \<and> qs \<noteq> '''' \<and> CHR ''?'' \<notin> set qs \<and> CHR ''#'' \<notin> set qs"
proof -
  let ?q = "[(''client_id'', [ClientID params]),
         (''redirect_uri'', [URL_String (ru\<lparr>Host := Hostname ru @ '':'' @ Itoa (Port (server flow))\<rparr>)]),
         (''scope'', [Join (Scopes params) '' '']),
         (''state'', [state flow])]
        @ (if LoginHandle params \<noteq> '''' then [(''login'', [LoginHandle params])] else [])
        @ (if \<not> AllowSignup params then [(''allow_signup'', [''false''])] else [])"
  have ne: "Values_Encode ?q \<noteq> ''''"
  proof
    assume "Values_Encode ?q = ''''"
    then have "fst (ParseQuery (Values_Encode ?q)) = fst (ParseQuery '''')" by simp
    then show False
      unfolding BrowserURL_query_parsed by (simp add: ParseQuery_def)
  qed
  show ?thesis
    unfolding BrowserURL_parsed [OF assms]
    using ne BrowserURL_query_parsed Values_Encode_no_query_mark
    by (intro exI [of _ "Values_Encode ?q"]) simp
qed

text \<open>
  C3 (as amended). The query string is written with the keys in sorted order:
  \<open>allow_signup\<close> (only when \<open>AllowSignup\<close> is false), \<open>client_id\<close>, \<open>login\<close> (only when
  \<open>LoginHandle\<close> is not empty), \<open>redirect_uri\<close>, \<open>scope\<close>, \<open>state\<close>.
\<close>

theorem BrowserURL_query_sorted:
  assumes "url_Parse (RedirectURI params) = Inr ru"
  shows "fst (BrowserURL flow baseURL params) = Inr (baseURL @ ''?'' @
      (if AllowSignup params then '''' else ''allow_signup=false&'') @
      ''client_id='' @ QueryEscape (ClientID params) @ ''&'' @
      (if LoginHandle params = '''' then '''' else ''login='' @ QueryEscape (LoginHandle params) @ ''&'') @
      ''redirect_uri='' @ QueryEscape (URL_String (ru\<lparr>Host := Hostname ru @ '':'' @ Itoa (Port (server flow))\<rparr>)) @
      ''&scope='' @ QueryEscape (Join (Scopes params) '' '') @
      ''&state='' @ QueryEscape (state flow))"
  using assms by (rule BrowserURL_explicit)

text \<open>
  C6. For a redirect URI that parses, the returned URL is the base URL, a question mark
  and a query string; parsing the query string gives no error and exactly the supplied
  client id, the scopes joined by spaces in their order and the flow's state, and
  \<open>allow_signup\<close> is there, as \<open>false\<close>, exactly when \<open>AllowSignup\<close> is false. When the base
  URL has no query and no fragment of its own, that query string is the query of the
  returned URL as \<^verbatim>\<open>url.Parse\<close> finds it.
\<close>

theorem BrowserURL_roundtrip:
  assumes "url_Parse (RedirectURI params) = Inr ru"
  shows "\<exists>qs. fst (BrowserURL flow baseURL params) = Inr (baseURL @ ''?'' @ qs)
     \<and> snd (ParseQuery qs) = None
     \<and> map_of (fst (ParseQuery qs)) ''client_id'' = Some [ClientID params]
     \<and> map_of (fst (ParseQuery qs)) ''scope'' = Some [Join (Scopes params) '' '']
     \<and> map_of (fst (ParseQuery qs)) ''state'' = Some [state flow]
     \<and> map_of (fst (ParseQuery qs)) ''allow_signup'' =
          (if AllowSignup params then None else Some [''false''])
     \<and> (\<forall>u. CHR ''?'' \<notin> set baseURL \<and> CHR ''#'' \<notin> set baseURL
              \<and> url_Parse (baseURL @ ''?'' @ qs) = Inr u \<longrightarrow> RawQuery u = qs)"
proof -
  from BrowserURL_result [OF assms, of flow baseURL] obtain qs where
    b: "BrowserURL flow baseURL params =
           (Inr (baseURL @ ''?'' @ qs),
            flow\<lparr>server := (server flow)\<lparr>CallbackPath := Path ru\<rparr>, clientID := ClientID params\<rparr>)"
    and p: "ParseQuery qs =
           ((if \<not> AllowSignup params then [(''allow_signup'', [''false''])] else [])
            @ [(''client_id'', [ClientID params])]
            @ (if LoginHandle params \<noteq> '''' then [(''login'', [LoginHandle params])] else [])
            @ [(''redirect_uri'',
                 [URL_String (ru\<lparr>Host := Hostname ru @ '':'' @ Itoa (Port (server flow))\<rparr>)]),
               (''scope'', [Join (Scopes params) '' '']), (''state'', [state flow])], None)"
    and q: "qs \<noteq> ''''" "CHR ''?'' \<notin> set qs" "CHR ''#'' \<notin> set qs"
    by blast
  have r: "RawQuery u = qs"
    if "CHR ''?'' \<notin> set baseURL" "CHR ''#'' \<notin> set baseURL" "url_Parse (baseURL @ ''?'' @ qs) = Inr u"
    for u
    using that(3,1,2) q(2,3,1) by (rule url_Parse_RawQuery)
  have "fst (BrowserURL flow baseURL params) = Inr (baseURL @ ''?'' @ qs)"
    by (simp add: b)
  moreover have "snd (ParseQuery qs) = None" by (simp add: p)
  moreover have "map_of (fst (ParseQuery qs)) ''client_id'' = Some [ClientID params]"
    unfolding p by simp
  moreover have "map_of (fst (ParseQuery qs)) ''scope'' = Some [Join (Scopes params) '' '']"
    unfolding p by simp
  moreover have "map_of (fst (ParseQuery qs)) ''state'' = Some [state flow]"
    unfolding p by simp
  moreover have "map_of (fst (ParseQuery qs)) ''allow_signup'' =
          (if AllowSignup params then None else Some [''false''])"
    unfolding p by simp
  ultimately show ?thesis using r by blast
qed

text \<open>
  C2 (as amended). For a redirect URI that parses, the \<open>redirect_uri\<close> parameter of the
  returned URL is the redirect URI with its host replaced by its own hostname and the
  port of the bound server, and the server's callback path is the URI's path. For a URI
  of the shape \<open>scheme://hostname[:port]/path\<close> the parameter is
  \<open>scheme://hostname:<port of the server>/path\<close>.
\<close>

theorem BrowserURL_redirect_uri:
  assumes "url_Parse (RedirectURI params) = Inr ru"
  shows "\<exists>qs flow'. BrowserURL flow baseURL params = (Inr (baseURL @ ''?'' @ qs), flow')
     \<and> map_of (fst (ParseQuery qs)) ''redirect_uri'' =
          Some [URL_String (ru\<lparr>Host := Hostname ru @ '':'' @ Itoa (Port (server flow))\<rparr>)]
     \<and> Path (ru\<lparr>Host := Hostname ru @ '':'' @ Itoa (Port (server flow))\<rparr>) = Path ru
     \<and> CallbackPath (server flow') = Path ru
     \<and> (plain_redirect ru \<longrightarrow>
          map_of (fst (ParseQuery qs)) ''redirect_uri'' =
            Some [Scheme ru @ ''://'' @ Hostname ru @ '':'' @ Itoa (Port (server flow)) @ Path ru])"
proof -
  from BrowserURL_result [OF assms, of flow baseURL] obtain qs where
    b: "BrowserURL flow baseURL params =
           (Inr (baseURL @ ''?'' @ qs),
            flow\<lparr>server := (server flow)\<lparr>CallbackPath := Path ru\<rparr>, clientID := ClientID params\<rparr>)"
    and p: "ParseQuery qs =
           ((if \<not> AllowSignup params then [(''allow_signup'', [''false''])] else [])
            @ [(''client_id'', [ClientID params])]
            @ (if LoginHandle params \<noteq> '''' then [(''login'', [LoginHandle params])] else [])
            @ [(''redirect_uri'',
                 [URL_String (ru\<lparr>Host := Hostname ru @ '':'' @ Itoa (Port (server flow))\<rparr>)]),
               (''scope'', [Join (Scopes params) '' '']), (''state'', [state flow])], None)"
    by blast
  have r: "map_of (fst (ParseQuery qs)) ''redirect_uri'' =
          Some [URL_String (ru\<lparr>Host := Hostname ru @ '':'' @ Itoa (Port (server flow))\<rparr>)]"
    unfolding p by simp
  show ?thesis
    using b r URL_String_plain [of ru "Port (server flow)"] by simp
qed

subsection \<open>The examples, evaluated\<close>

lemma ex_parse: "url_Parse ''http://127.0.0.1/callback'' = Inr ex_redirect"
  by code_simp

lemma ex_plain: "plain_redirect ex_redirect"
  by code_simp

lemma ex_Hostname: "Hostname ex_redirect = ''127.0.0.1''"
  by code_simp

lemma ex_Itoa: "Itoa 12345 = ''12345''"
  by (simp add: Itoa_def digits.simps digit_table_def)

lemma ex_Port: "Port (server ex_flow) = 12345"
  by (simp add: Port_def ex_flow_def ex_server_def)

lemma ex_redirect_String:
  "URL_String (ex_redirect\<lparr>Host := Hostname ex_redirect @ '':'' @ Itoa (Port (server ex_flow))\<rparr>) =
     ''http://127.0.0.1:12345/callback''"
proof -
  have "URL_String (ex_redirect\<lparr>Host := Hostname ex_redirect @ '':'' @ Itoa 12345\<rparr>) =
          Scheme ex_redirect @ ''://'' @ Hostname ex_redirect @ '':'' @ Itoa 12345 @ Path ex_redirect"
    using ex_plain by (rule URL_String_plain)
  also have "\<dots> = ''http://127.0.0.1:12345/callback''"
    unfolding ex_Hostname ex_Itoa by (simp add: ex_redirect_def URL_new_def)
  finally show ?thesis by (simp add: ex_Port)
qed

lemma ex_QueryEscape:
  "QueryEscape ''CLIENT-ID'' = ''CLIENT-ID''"
  "QueryEscape ''monalisa'' = ''monalisa''"
  "QueryEscape ''http://127.0.0.1:12345/callback'' = ''http%3A%2F%2F127.0.0.1%3A12345%2Fcallback''"
  "QueryEscape ''repo read:org'' = ''repo+read%3Aorg''"
  "QueryEscape ''00112233445566778899'' = ''00112233445566778899''"
  by code_simp+

lemma ex_BrowserURL:
  "fst (BrowserURL ex_flow ex_baseURL ex_params) =
     Inr ''https://github.com/login/oauth/authorize?client_id=CLIENT-ID&redirect_uri=http%3A%2F%2F127.0.0.1%3A12345%2Fcallback&scope=repo+read%3Aorg&state=00112233445566778899''"
proof -
  have p: "url_Parse (RedirectURI ex_params) = Inr ex_redirect"
    by (simp add: ex_params_def ex_parse)
  show ?thesis
    unfolding BrowserURL_explicit [OF p] ex_redirect_String
    by (simp add: ex_params_def ex_QueryEscape ex_flow_def ex_baseURL_def)
qed

lemma ex_BrowserURL_login:
  "fst (BrowserURL ex_flow ex_baseURL ex_params_login) =
     Inr ''https://github.com/login/oauth/authorize?allow_signup=false&client_id=CLIENT-ID&login=monalisa&redirect_uri=http%3A%2F%2F127.0.0.1%3A12345%2Fcallback&scope=repo+read%3Aorg&state=00112233445566778899''"
proof -
  have p: "url_Parse (RedirectURI ex_params_login) = Inr ex_redirect"
    by (simp add: ex_params_login_def ex_parse)
  show ?thesis
    unfolding BrowserURL_explicit [OF p] ex_redirect_String
    by (simp add: ex_params_login_def ex_QueryEscape ex_flow_def ex_baseURL_def)
qed

lemma ex_ParseQuery:
  "ParseQuery ''client_id=CLIENT-ID&redirect_uri=http%3A%2F%2F127.0.0.1%3A12345%2Fcallback&scope=repo+read%3Aorg&state=00112233445566778899'' =
     ([(''client_id'', [''CLIENT-ID'']), (''redirect_uri'', [''http://127.0.0.1:12345/callback'']),
       (''scope'', [''repo read:org'']), (''state'', [''00112233445566778899''])], None)"
  by code_simp

subsection \<open>The claims about the authorization URL at the examples\<close>

theorem BrowserURL_query_sorted_witness:
  "url_Parse (RedirectURI ex_params) = Inr ex_redirect
   \<and> fst (BrowserURL ex_flow ex_baseURL ex_params) =
       Inr (ex_baseURL @ ''?'' @ ''client_id=CLIENT-ID'' @ ''&''
            @ ''redirect_uri=http%3A%2F%2F127.0.0.1%3A12345%2Fcallback''
            @ ''&scope=repo+read%3Aorg'' @ ''&state=00112233445566778899'')"
proof -
  have p: "url_Parse (RedirectURI ex_params) = Inr ex_redirect"
    by (simp add: ex_params_def ex_parse)
  from BrowserURL_query_sorted [OF p, of ex_flow ex_baseURL] p show ?thesis
    unfolding ex_redirect_String
    by (simp add: ex_params_def ex_QueryEscape ex_flow_def)
qed

text \<open>
  C3, as the claim states it, fails: with a login handle and \<open>AllowSignup = false\<close> the
  query string begins with \<open>allow_signup\<close> and has \<open>login\<close> before \<open>redirect_uri\<close>; it is
  not the string with the parameters in the claimed order.
\<close>

theorem BrowserURL_order_counterexample:
  "fst (BrowserURL ex_flow ex_baseURL ex_params_login) =
     Inr ''https://github.com/login/oauth/authorize?allow_signup=false&client_id=CLIENT-ID&login=monalisa&redirect_uri=http%3A%2F%2F127.0.0.1%3A12345%2Fcallback&scope=repo+read%3Aorg&state=00112233445566778899''
   \<and> fst (BrowserURL ex_flow ex_baseURL ex_params_login) \<noteq>
     Inr ''https://github.com/login/oauth/authorize?client_id=CLIENT-ID&redirect_uri=http%3A%2F%2F127.0.0.1%3A12345%2Fcallback&scope=repo+read%3Aorg&state=00112233445566778899&login=monalisa&allow_signup=false''"
  unfolding ex_BrowserURL_login by simp

theorem BrowserURL_redirect_uri_witness:
  "url_Parse (RedirectURI ex_params_login) = Inr ex_redirect
   \<and> plain_redirect ex_redirect
   \<and> (\<exists>qs flow'. BrowserURL ex_flow ex_baseURL ex_params_login = (Inr (ex_baseURL @ ''?'' @ qs), flow')
         \<and> map_of (fst (ParseQuery qs)) ''redirect_uri'' = Some [''http://127.0.0.1:12345/callback'']
         \<and> CallbackPath (server flow') = ''/callback'')"
proof -
  have p: "url_Parse (RedirectURI ex_params_login) = Inr ex_redirect"
    by (simp add: ex_params_login_def ex_parse)
  have s: "Scheme ex_redirect @ ''://'' @ Hostname ex_redirect @ '':'' @ Itoa (Port (server ex_flow))
             @ Path ex_redirect = ''http://127.0.0.1:12345/callback''"
    unfolding ex_Hostname ex_Port ex_Itoa by (simp add: ex_redirect_def URL_new_def)
  have c: "Path ex_redirect = ''/callback''"
    by (simp add: ex_redirect_def URL_new_def)
  from BrowserURL_redirect_uri [OF p, of ex_flow ex_baseURL] ex_plain obtain qs flow' where
    "BrowserURL ex_flow ex_baseURL ex_params_login = (Inr (ex_baseURL @ ''?'' @ qs), flow')"
    "map_of (fst (ParseQuery qs)) ''redirect_uri'' =
       Some [Scheme ex_redirect @ ''://'' @ Hostname ex_redirect @ '':''
             @ Itoa (Port (server ex_flow)) @ Path ex_redirect]"
    "CallbackPath (server flow') = Path ex_redirect"
    by blast
  with s c ex_plain p show ?thesis by auto
qed

text \<open>
  C2, as the claim states it, fails: for the redirect URI \<open>http://127.0.0.1/callback\<close> and
  the port 12345 the \<open>redirect_uri\<close> parameter is \<open>http://127.0.0.1:12345/callback\<close>, not
  \<open>http://localhost:12345/callback\<close>.
\<close>

theorem BrowserURL_localhost_counterexample:
  "url_Parse (RedirectURI ex_params) = Inr ex_redirect
   \<and> fst (BrowserURL ex_flow ex_baseURL ex_params) =
       Inr (ex_baseURL @ ''?'' @ ''client_id=CLIENT-ID&redirect_uri=http%3A%2F%2F127.0.0.1%3A12345%2Fcallback&scope=repo+read%3Aorg&state=00112233445566778899'')
   \<and> map_of (fst (ParseQuery ''client_id=CLIENT-ID&redirect_uri=http%3A%2F%2F127.0.0.1%3A12345%2Fcallback&scope=repo+read%3Aorg&state=00112233445566778899''))
         ''redirect_uri'' = Some [''http://127.0.0.1:12345/callback'']
   \<and> ''http://localhost:'' @ Itoa (Port (server ex_flow)) @ Path ex_redirect =
       ''http://localhost:12345/callback''
   \<and> ''http://127.0.0.1:12345/callback'' \<noteq> ''http://localhost:12345/callback''
   \<and> QueryEscape ''http://127.0.0.1:12345/callback'' \<noteq> QueryEscape ''http://localhost:12345/callback''"
proof -
  have p: "url_Parse (RedirectURI ex_params) = Inr ex_redirect"
    by (simp add: ex_params_def ex_parse)
  have l: "QueryEscape ''http://localhost:12345/callback'' = ''http%3A%2F%2Flocalhost%3A12345%2Fcallback''"
    by code_simp
  show ?thesis
    unfolding ex_BrowserURL ex_ParseQuery ex_Port ex_Itoa ex_QueryEscape l
    using p by (simp add: ex_baseURL_def ex_redirect_def URL_new_def)
qed

theorem BrowserURL_roundtrip_witness:
  "url_Parse (RedirectURI ex_params) = Inr ex_redirect
   \<and> CHR ''?'' \<notin> set ex_baseURL \<and> CHR ''#'' \<notin> set ex_baseURL
   \<and> (\<exists>qs u. fst (BrowserURL ex_flow ex_baseURL ex_params) = Inr (ex_baseURL @ ''?'' @ qs)
         \<and> snd (ParseQuery qs) = None
         \<and> map_of (fst (ParseQuery qs)) ''client_id'' = Some [''CLIENT-ID'']
         \<and> map_of (fst (ParseQuery qs)) ''scope'' = Some [''repo read:org'']
         \<and> map_of (fst (ParseQuery qs)) ''state'' = Some [''00112233445566778899'']
         \<and> map_of (fst (ParseQuery qs)) ''allow_signup'' = None
         \<and> url_Parse (ex_baseURL @ ''?'' @ qs) = Inr u \<and> RawQuery u = qs)"
proof -
  let ?Q = "''client_id=CLIENT-ID&redirect_uri=http%3A%2F%2F127.0.0.1%3A12345%2Fcallback&scope=repo+read%3Aorg&state=00112233445566778899''"
  let ?U = "URL_new\<lparr>Scheme := ''https'', Host := ''github.com'', Path := ''/login/oauth/authorize'',
              RawQuery := ?Q\<rparr>"
  have p: "url_Parse (RedirectURI ex_params) = Inr ex_redirect"
    by (simp add: ex_params_def ex_parse)
  have b: "CHR ''?'' \<notin> set ex_baseURL" "CHR ''#'' \<notin> set ex_baseURL"
    by (simp_all add: ex_baseURL_def)
  have u: "url_Parse (ex_baseURL @ ''?'' @ ?Q) = Inr ?U"
    by code_simp
  from BrowserURL_roundtrip [OF p, of ex_flow ex_baseURL] obtain qs where
    q: "fst (BrowserURL ex_flow ex_baseURL ex_params) = Inr (ex_baseURL @ ''?'' @ qs)"
    and r: "snd (ParseQuery qs) = None"
      "map_of (fst (ParseQuery qs)) ''client_id'' = Some [ClientID ex_params]"
      "map_of (fst (ParseQuery qs)) ''scope'' = Some [Join (Scopes ex_params) '' '']"
      "map_of (fst (ParseQuery qs)) ''state'' = Some [state ex_flow]"
      "map_of (fst (ParseQuery qs)) ''allow_signup'' =
          (if AllowSignup ex_params then None else Some [''false''])"
    and w: "\<forall>u. CHR ''?'' \<notin> set ex_baseURL \<and> CHR ''#'' \<notin> set ex_baseURL
              \<and> url_Parse (ex_baseURL @ ''?'' @ qs) = Inr u \<longrightarrow> RawQuery u = qs"
    by blast
  from q have "qs = ?Q"
    unfolding ex_BrowserURL by (simp add: ex_baseURL_def)
  with u have u': "url_Parse (ex_baseURL @ ''?'' @ qs) = Inr ?U" by simp
  with w b have "RawQuery ?U = qs" by blast
  with q r u' p b show ?thesis
    by (intro conjI exI [of _ qs] exI [of _ ?U]) (simp_all add: ex_params_def ex_flow_def)
qed

subsection \<open>The state nonce\<close>

text \<open>
  C8. The code does not do what the claim says of the length: the state of a flow that
  \<^verbatim>\<open>InitFlow\<close> returns has 20 characters when the random source delivers and is the empty
  string when the random source fails, since \<^verbatim>\<open>InitFlow\<close> drops the error of
  \<^verbatim>\<open>randomString\<close> (the defect of C4).
\<close>

theorem InitFlow_state_length:
  "InitFlow ex_env = Inr ex_flow
   \<and> length (state ex_flow) = 20
   \<and> InitFlow (ex_env\<lparr>rand := Inl (RandError ''entropy source unavailable'')\<rparr>) =
       Inr (ex_flow\<lparr>state := ''''\<rparr>)
   \<and> length (state (ex_flow\<lparr>state := ''''\<rparr>)) = 0"
proof -
  have "InitFlow ex_env = Inr ex_flow" by code_simp
  moreover have "InitFlow (ex_env\<lparr>rand := Inl (RandError ''entropy source unavailable'')\<rparr>) =
       Inr (ex_flow\<lparr>state := ''''\<rparr>)"
    by (simp add: InitFlow_def randomString_def rand_Read_def ex_env_def ex_flow_def)
  ultimately show ?thesis by (simp add: ex_flow_def)
qed

text \<open>
  What holds of the state on the code (the other parts of the claim). The state of a flow is what the one call of \<^verbatim>\<open>randomString(20)\<close> in \<^verbatim>\<open>InitFlow\<close>
  returned: the nonce that the call generated, of 20 characters. (When the call returns
  an error it has generated no nonce; what \<^verbatim>\<open>InitFlow\<close> does then is C4.) \<^verbatim>\<open>BrowserURL\<close>,
  \<^verbatim>\<open>StartServer\<close>, \<^verbatim>\<open>AccessTokenWithParams\<close> and \<^verbatim>\<open>AccessToken\<close> leave it as it is. Every
  POST of the exchange carries the flow's state, and is issued only when the callback's
  state equals it; the \<open>state\<close> parameter of the authorization URL is the flow's state;
  so after building the URL and serving the callback, the state posted is the state in
  the URL.
\<close>

lemma state_nonce_invariant:
  "(InitFlow e = Inr flow0 \<longrightarrow>
      state flow0 = fst (randomString 20 (rand e))
      \<and> (\<forall>nonce. randomString 20 (rand e) = (nonce, None) \<longrightarrow>
            state flow0 = nonce \<and> length (state flow0) = 20))
   \<and> state (snd (BrowserURL flow baseURL params)) = state flow
   \<and> (StartServer serve flow writeSuccess = Some (err, flow1) \<longrightarrow> state flow1 = state flow)
   \<and> (AccessTokenWithParams AccessToken_of flow c tokenURL clientSecret postParams =
          Some (res, posts, flow2) \<longrightarrow>
        state flow2 = state flow
        \<and> (\<forall>req \<in> set posts.
              map_of (snd req) ''state'' = Some [state flow]
              \<and> (\<exists>code srv. WaitForCode (server flow) = Some (Inr code, srv)
                    \<and> State code = state flow)))
   \<and> (AccessToken AccessToken_of flow c tokenURL clientSecret = Some (res', posts', flow3) \<longrightarrow>
        state flow3 = state flow)
   \<and> (\<forall>url. fst (BrowserURL flow baseURL params) = Inr url \<longrightarrow>
         (\<exists>qs. url = baseURL @ ''?'' @ qs
               \<and> map_of (fst (ParseQuery qs)) ''state'' = Some [state flow]))
   \<and> (\<forall>url fa fb fc r ps.
         BrowserURL flow baseURL params = (Inr url, fa)
         \<and> StartServer serve fa writeSuccess = Some (err, fb)
         \<and> AccessTokenWithParams AccessToken_of fb c tokenURL clientSecret postParams =
             Some (r, ps, fc) \<longrightarrow>
         (\<exists>qs. url = baseURL @ ''?'' @ qs
               \<and> (\<forall>req \<in> set ps.
                     map_of (snd req) ''state'' = map_of (fst (ParseQuery qs)) ''state'')))"
proof -
  have init: "InitFlow e = Inr flow0 \<longrightarrow>
      state flow0 = fst (randomString 20 (rand e))
      \<and> (\<forall>nonce. randomString 20 (rand e) = (nonce, None) \<longrightarrow>
            state flow0 = nonce \<and> length (state flow0) = 20)"
    using InitFlow_state [of e flow0] randomString_length [of "rand e"] by auto
  have tok: "AccessTokenWithParams AccessToken_of flow c tokenURL clientSecret postParams =
          Some (res, posts, flow2) \<longrightarrow>
        state flow2 = state flow
        \<and> (\<forall>req \<in> set posts.
              map_of (snd req) ''state'' = Some [state flow]
              \<and> (\<exists>code srv. WaitForCode (server flow) = Some (Inr code, srv)
                    \<and> State code = state flow))"
  proof (rule impI)
    assume a: "AccessTokenWithParams AccessToken_of flow c tokenURL clientSecret postParams =
          Some (res, posts, flow2)"
    have "state flow2 = state flow"
      using a by (rule AccessTokenWithParams_state)
    moreover have "map_of (snd req) ''state'' = Some [state flow]
              \<and> (\<exists>code srv. WaitForCode (server flow) = Some (Inr code, srv)
                    \<and> State code = state flow)" if "req \<in> set posts" for req
      using a that by (rule AccessTokenWithParams_posts)
    ultimately show "state flow2 = state flow
        \<and> (\<forall>req \<in> set posts.
              map_of (snd req) ''state'' = Some [state flow]
              \<and> (\<exists>code srv. WaitForCode (server flow) = Some (Inr code, srv)
                    \<and> State code = state flow))"
      by blast
  qed
  have tok': "AccessToken AccessToken_of flow c tokenURL clientSecret = Some (res', posts', flow3) \<longrightarrow>
        state flow3 = state flow"
    unfolding AccessToken_def using AccessTokenWithParams_state by blast
  have url: "\<exists>qs. url = baseURL @ ''?'' @ qs
               \<and> map_of (fst (ParseQuery qs)) ''state'' = Some [state flow]"
    if "fst (BrowserURL flow baseURL params) = Inr url" for url
  proof (cases "url_Parse (RedirectURI params)")
    case (Inl err)
    with that show ?thesis by (simp add: BrowserURL_def)
  next
    case (Inr ru)
    from BrowserURL_result [OF Inr, of flow baseURL] obtain qs where
      "BrowserURL flow baseURL params =
         (Inr (baseURL @ ''?'' @ qs),
          flow\<lparr>server := (server flow)\<lparr>CallbackPath := Path ru\<rparr>, clientID := ClientID params\<rparr>)"
      and p: "ParseQuery qs =
           ((if \<not> AllowSignup params then [(''allow_signup'', [''false''])] else [])
            @ [(''client_id'', [ClientID params])]
            @ (if LoginHandle params \<noteq> '''' then [(''login'', [LoginHandle params])] else [])
            @ [(''redirect_uri'',
                 [URL_String (ru\<lparr>Host := Hostname ru @ '':'' @ Itoa (Port (server flow))\<rparr>)]),
               (''scope'', [Join (Scopes params) '' '']), (''state'', [state flow])], None)"
      by blast
    with that have "url = baseURL @ ''?'' @ qs" by simp
    moreover have "map_of (fst (ParseQuery qs)) ''state'' = Some [state flow]"
      unfolding p by simp
    ultimately show ?thesis by blast
  qed
  have run: "\<exists>qs. url = baseURL @ ''?'' @ qs
               \<and> (\<forall>req \<in> set ps.
                     map_of (snd req) ''state'' = map_of (fst (ParseQuery qs)) ''state'')"
    if b: "BrowserURL flow baseURL params = (Inr url, fa)"
      and s: "StartServer serve fa writeSuccess = Some (err, fb)"
      and t: "AccessTokenWithParams AccessToken_of fb c tokenURL clientSecret postParams =
             Some (r, ps, fc)"
    for url fa fb fc r ps
  proof -
    from b have "fst (BrowserURL flow baseURL params) = Inr url" by simp
    from url [OF this] obtain qs where
      q: "url = baseURL @ ''?'' @ qs" "map_of (fst (ParseQuery qs)) ''state'' = Some [state flow]"
      by blast
    from b have "state fa = state flow"
      using BrowserURL_state [of flow baseURL params] by simp
    with s have "state fb = state flow"
      using StartServer_state by fastforce
    with t have "\<forall>req \<in> set ps. map_of (snd req) ''state'' = Some [state flow]"
      using AccessTokenWithParams_posts by fastforce
    with q show ?thesis by auto
  qed
  show ?thesis
    using init BrowserURL_state [of flow baseURL params] StartServer_state [of serve flow writeSuccess err flow1]
      tok tok' url run
    by (intro conjI allI impI) blast+
qed

lemma state_nonce_invariant_example:
  "InitFlow ex_env = Inr ex_flow
   \<and> randomString 20 (rand ex_env) = (''00112233445566778899'', None)
   \<and> state ex_flow = ''00112233445566778899'' \<and> length (state ex_flow) = 20
   \<and> (\<exists>url fa fb fc body.
        BrowserURL ex_flow ex_baseURL ex_params = (Inr url, fa)
        \<and> StartServer ex_serve fa ''<html>ok</html>'' = Some (Some (ServerError ''http: Server closed''), fb)
        \<and> AccessTokenWithParams ex_AccessToken_of fb ex_client
             ''https://github.com/login/oauth/access_token'' ''SECRET'' None =
             Some (Inr ''tok_xyz'', [(''https://github.com/login/oauth/access_token'', body)], fc)
        \<and> state fa = state ex_flow \<and> state fb = state ex_flow \<and> state fc = state ex_flow
        \<and> map_of body ''state'' = Some [''00112233445566778899'']
        \<and> (\<exists>qs. url = ex_baseURL @ ''?'' @ qs
              \<and> map_of (fst (ParseQuery qs)) ''state'' = Some [''00112233445566778899'']))"
proof -
  let ?fa = "ex_flow\<lparr>server := (server ex_flow)\<lparr>CallbackPath := ''/callback''\<rparr>,
                      clientID := ''CLIENT-ID''\<rparr>"
  let ?fb = "ex_flow_called ''00112233445566778899''"
  let ?fc = "?fb\<lparr>server := (server ?fb)\<lparr>resultChan := None\<rparr>\<rparr>"
  let ?url = "''https://github.com/login/oauth/authorize?client_id=CLIENT-ID&redirect_uri=http%3A%2F%2F127.0.0.1%3A12345%2Fcallback&scope=repo+read%3Aorg&state=00112233445566778899''"
  let ?body = "[(''client_id'', [''CLIENT-ID'']), (''client_secret'', [''SECRET'']),
               (''code'', [''abc123'']), (''state'', [''00112233445566778899''])]"
  let ?tokenURL = "''https://github.com/login/oauth/access_token''"
  have i: "InitFlow ex_env = Inr ex_flow" by code_simp
  have r: "randomString 20 (rand ex_env) = (''00112233445566778899'', None)"
    by code_simp
  have p: "url_Parse (RedirectURI ex_params) = Inr ex_redirect"
    by (simp add: ex_params_def ex_parse)
  have b: "BrowserURL ex_flow ex_baseURL ex_params = (Inr ?url, ?fa)"
    using ex_BrowserURL BrowserURL_parsed [OF p, of ex_flow ex_baseURL]
    by (simp add: ex_redirect_def URL_new_def ex_params_def)
  have s: "StartServer ex_serve ?fa ''<html>ok</html>'' =
             Some (Some (ServerError ''http: Server closed''), ?fb)"
    by (simp add: StartServer_def ex_serve_def ex_flow_called_def ex_flow_def ex_server_def)
  have t: "AccessTokenWithParams ex_AccessToken_of ?fb ex_client ?tokenURL ''SECRET'' None =
             Some (Inr ''tok_xyz'', [(?tokenURL, ?body)], ?fc)"
    by (simp add: AccessTokenWithParams_def WaitForCode_def api_PostForm_def Values_assign_def
          ex_flow_called_def ex_client_def ex_AccessToken_of_def)
  note T = state_nonce_invariant [of ex_env ex_flow ex_flow ex_baseURL ex_params ex_serve
      "''<html>ok</html>''" "Some (ServerError ''http: Server closed'')" ?fb
      ex_AccessToken_of ex_client ?tokenURL "''SECRET''" None]
  from T i r have l: "length (state ex_flow) = 20" by blast
  from T b have sa: "state ?fa = state ex_flow" by (simp add: ex_flow_def)
  from T b obtain qs where
    q: "?url = ex_baseURL @ ''?'' @ qs"
       "map_of (fst (ParseQuery qs)) ''state'' = Some [state ex_flow]"
    by (metis fst_conv)
  have st: "state ex_flow = ''00112233445566778899''" by (simp add: ex_flow_def)
  have sb: "state ?fb = state ex_flow" by (simp add: ex_flow_called_def ex_flow_def)
  have sc: "state ?fc = state ex_flow" by (simp add: ex_flow_called_def ex_flow_def)
  show ?thesis
    using i r st l b s t sa sb sc q
    by (intro conjI exI [of _ ?url] exI [of _ ?fa] exI [of _ ?fb] exI [of _ ?fc]
          exI [of _ ?body] exI [of _ qs]) simp_all
qed

end
